theory Spec2Isabelle
  imports Main
begin

section \<open>JavaScript containers used by the client\<close>

text \<open>
  A JavaScript \<open>Set\<close> keeps its members in insertion order and holds each member once.
  It is modelled as a list without duplicates: \<open>add\<close> appends a new member at the end and
  leaves the set alone when the member is already there, \<open>delete\<close> removes it, \<open>has\<close>
  tests membership, \<open>size\<close> is the length, and \<open>new Set(array)\<close> adds the elements of
  the array one by one.
\<close>

type_synonym 'a js_set = "'a list"

definition set_has :: "'a js_set \<Rightarrow> 'a \<Rightarrow> bool" where
  "set_has s x = (x \<in> set s)"

definition set_add :: "'a \<Rightarrow> 'a js_set \<Rightarrow> 'a js_set" where
  "set_add x s = (if x \<in> set s then s else s @ [x])"

definition set_delete :: "'a \<Rightarrow> 'a js_set \<Rightarrow> 'a js_set" where
  "set_delete x s = filter (\<lambda>y. y \<noteq> x) s"

definition new_Set :: "'a list \<Rightarrow> 'a js_set" where
  "new_Set xs = foldl (\<lambda>s x. set_add x s) [] xs"

section \<open>The realtime hook \<open>useWebSocket\<close>\<close>

subsection \<open>State\<close>

text \<open>The four values of \<open>WebSocket.readyState\<close>.\<close>

datatype ready_state = CONNECTING | OPEN | CLOSING | CLOSED

text \<open>
  \<open>messageData\<close> as built by \<open>sendMessage\<close>. The timestamp is \<open>new Date().toISOString()\<close>,
  which the model takes as an argument.
\<close>

record message_data =
  receiverId :: nat
  content :: string
  imageUrl :: "string option"
  timestamp :: string

text \<open>The envelopes the hook writes to its socket, one constructor per \<open>type\<close> string.\<close>

datatype envelope =
    Join nat
  | Message message_data
  | Typing string bool
  | MarkRead nat string
  | StatusUpdate string
  | JoinConversation string
  | LeaveConversation string

text \<open>
  The socket object held in \<open>wsRef.current\<close>: its ready state and everything handed to
  \<open>ws.send\<close> so far, oldest first.
\<close>

record web_socket =
  readyState :: ready_state
  transmitted :: "envelope list"

text \<open>
  The envelopes the hook receives, as \<open>handleMessage\<close> distinguishes them by
  \<open>message.type\<close>. The payload of the forwarded types is opaque to the hook. A
  \<open>user_list\<close> may come without \<open>userIds\<close> (\<open>message.data.userIds || []\<close>).
\<close>

datatype ws_message =
    user_list "nat list option"
  | online nat
  | offline nat
  | user_status nat string
  | typing string nat bool
  | message_read string
  | new_message string
  | message_sent string
  | new_notification string
  | unknown_type string

text \<open>
  The state of one mounted hook: the signed-in user of \<open>useAuth\<close>, the refs
  (\<open>wsRef\<close>, \<open>reconnectAttempts\<close>, \<open>messageHandlers\<close>), the React state variables
  (\<open>isConnected\<close>, \<open>onlineUsers\<close>, \<open>typingUsers\<close>, \<open>userStatuses\<close>) and the
  browser's pending reconnect timer: \<open>reconnectTimeout\<close> is \<open>Some d\<close> while a timer
  set with delay \<open>d\<close> milliseconds has not fired yet. \<open>messageHandlers\<close> holds the
  types that have a handler; \<open>delivered\<close> lists the handler calls made so far.
\<close>

record hook_state =
  user :: "nat option"
  wsRef :: "web_socket option"
  isConnected :: bool
  onlineUsers :: "nat js_set"
  typingUsers :: "string \<rightharpoonup> nat js_set"
  userStatuses :: "nat \<rightharpoonup> string"
  reconnectTimeout :: "nat option"
  reconnectAttempts :: nat
  messageHandlers :: "string list"
  delivered :: "(string \<times> string) list"

definition initial_hook :: "nat option \<Rightarrow> hook_state" where
  "initial_hook u =
     \<lparr>user = u, wsRef = None, isConnected = False, onlineUsers = [],
      typingUsers = Map.empty, userStatuses = Map.empty, reconnectTimeout = None,
      reconnectAttempts = 0, messageHandlers = [], delivered = []\<rparr>"

definition maxReconnectAttempts :: nat where
  "maxReconnectAttempts = 5"

subsection \<open>Connection lifecycle\<close>

text \<open>\<open>connect\<close>: nothing without a user; otherwise a new socket replaces \<open>wsRef.current\<close>.\<close>

definition connect :: "hook_state \<Rightarrow> hook_state" where
  "connect st =
     (case user st of
        None \<Rightarrow> st
      | Some _ \<Rightarrow> st\<lparr>wsRef := Some \<lparr>readyState = CONNECTING, transmitted = []\<rparr>\<rparr>)"

text \<open>
  \<open>ws.send\<close> on the socket of \<open>wsRef\<close>. The browser raises on a socket that is still
  connecting and drops the data on one that is closing or closed; the hook only sends on
  an open socket, where the data is transmitted.
\<close>

definition ws_send :: "envelope \<Rightarrow> hook_state \<Rightarrow> hook_state" where
  "ws_send e st =
     (case wsRef st of
        None \<Rightarrow> st
      | Some ws \<Rightarrow>
          if readyState ws = OPEN
          then st\<lparr>wsRef := Some (ws\<lparr>transmitted := transmitted ws @ [e]\<rparr>)\<rparr>
          else st)"

text \<open>
  \<open>ws.onopen\<close>: the browser has opened the socket; the handler marks the hook connected,
  resets the attempt counter and sends the \<open>join\<close> envelope with the id of the user that
  \<open>connect\<close> found.
\<close>

definition ws_onopen :: "hook_state \<Rightarrow> hook_state" where
  "ws_onopen st =
     (let st1 = st\<lparr>wsRef := map_option (\<lambda>ws. ws\<lparr>readyState := OPEN\<rparr>) (wsRef st),
                    isConnected := True, reconnectAttempts := 0\<rparr>
      in case user st of
           None \<Rightarrow> st1
         | Some uid \<Rightarrow> ws_send (Join uid) st1)"

text \<open>
  \<open>ws.onclose\<close>: the socket is closed; while fewer than \<open>maxReconnectAttempts\<close> attempts
  were made, a timer is set with delay \<open>Math.min(1000 * Math.pow(2, attempts), 10000)\<close>.
\<close>

definition ws_onclose :: "hook_state \<Rightarrow> hook_state" where
  "ws_onclose st =
     (let st1 = st\<lparr>wsRef := map_option (\<lambda>ws. ws\<lparr>readyState := CLOSED\<rparr>) (wsRef st),
                    isConnected := False\<rparr>
      in if reconnectAttempts st1 < maxReconnectAttempts
         then st1\<lparr>reconnectTimeout :=
                    Some (min (1000 * 2 ^ reconnectAttempts st1) 10000)\<rparr>
         else st1)"

text \<open>The timer's callback: \<open>reconnectAttempts.current++; connect()\<close>.\<close>

definition reconnect_timer_fires :: "hook_state \<Rightarrow> hook_state" where
  "reconnect_timer_fires st =
     (case reconnectTimeout st of
        None \<Rightarrow> st
      | Some _ \<Rightarrow>
          connect (st\<lparr>reconnectTimeout := None,
                      reconnectAttempts := reconnectAttempts st + 1\<rparr>))"

text \<open>
  One failed reconnect attempt, seen from a closed socket to the next: the socket
  closes, the timer set by \<open>onclose\<close> fires and \<open>connect\<close> makes a socket that will not
  open.
\<close>

definition failed_attempt :: "hook_state \<Rightarrow> hook_state" where
  "failed_attempt st = reconnect_timer_fires (ws_onclose st)"

subsection \<open>Inbound dispatch\<close>

text \<open>Calling the handler registered for a type, if there is one.\<close>

definition forward :: "string \<Rightarrow> string \<Rightarrow> hook_state \<Rightarrow> hook_state" where
  "forward ty payload st =
     (if ty \<in> set (messageHandlers st)
      then st\<lparr>delivered := delivered st @ [(ty, payload)]\<rparr>
      else st)"

text \<open>
  The \<open>typing\<close> case of \<open>handleMessage\<close>, on the map alone: copy the map, make an empty
  set for a conversation that has none, add or delete the user, and delete the
  conversation's entry when its set is empty. The copy shares its set objects with the
  previous map, so the set is changed in place; the previous map is the state that
  React replaces, and the new map is what every later read sees.
\<close>

definition typing_update ::
  "string \<Rightarrow> nat \<Rightarrow> bool \<Rightarrow> (string \<rightharpoonup> nat js_set) \<Rightarrow> (string \<rightharpoonup> nat js_set)" where
  "typing_update conversationId userId isTyping prev =
     (let newMap = (case prev conversationId of
                      None \<Rightarrow> prev(conversationId \<mapsto> [])
                    | Some _ \<Rightarrow> prev);
          typingSet = (case newMap conversationId of None \<Rightarrow> [] | Some s \<Rightarrow> s);
          typingSet' = (if isTyping then set_add userId typingSet
                        else set_delete userId typingSet);
          newMap' = newMap(conversationId \<mapsto> typingSet')
      in if length typingSet' = 0 then newMap'(conversationId := None) else newMap')"

fun handleMessage :: "ws_message \<Rightarrow> hook_state \<Rightarrow> hook_state" where
  "handleMessage (user_list ids) st =
     st\<lparr>onlineUsers := new_Set (case ids of None \<Rightarrow> [] | Some xs \<Rightarrow> xs)\<rparr>"
| "handleMessage (online u) st = st\<lparr>onlineUsers := set_add u (onlineUsers st)\<rparr>"
| "handleMessage (offline u) st =
     st\<lparr>onlineUsers := set_delete u (onlineUsers st),
        userStatuses := (userStatuses st)(u \<mapsto> ''offline'')\<rparr>"
| "handleMessage (user_status u s) st = st\<lparr>userStatuses := (userStatuses st)(u \<mapsto> s)\<rparr>"
| "handleMessage (typing c u b) st = st\<lparr>typingUsers := typing_update c u b (typingUsers st)\<rparr>"
| "handleMessage (message_read d) st = forward ''message_read'' d st"
| "handleMessage (new_message d) st = forward ''new_message'' d st"
| "handleMessage (message_sent d) st = forward ''message_sent'' d st"
| "handleMessage (new_notification d) st = forward ''new_notification'' d st"
| "handleMessage (unknown_type t) st = st"

text \<open>Envelopes are handled one at a time, in arrival order.\<close>

definition handleMessages :: "ws_message list \<Rightarrow> hook_state \<Rightarrow> hook_state" where
  "handleMessages ms st = foldl (\<lambda>s m. handleMessage m s) st ms"

subsection \<open>Outbound operations\<close>

text \<open>
  The test every outbound operation starts with, negated:
  \<open>wsRef.current && wsRef.current.readyState === WebSocket.OPEN\<close>.
\<close>

definition socket_open :: "hook_state \<Rightarrow> bool" where
  "socket_open st = (case wsRef st of None \<Rightarrow> False | Some ws \<Rightarrow> readyState ws = OPEN)"

text \<open>\<open>new Error('WebSocket not connected')\<close>, the only error the hook throws.\<close>

datatype send_error = NotConnected

definition sendMessage ::
  "nat \<Rightarrow> string \<Rightarrow> string option \<Rightarrow> string \<Rightarrow> hook_state
     \<Rightarrow> send_error + (message_data \<times> hook_state)" where
  "sendMessage rid text img now st =
     (if \<not> socket_open st then Inl NotConnected
      else let messageData = \<lparr>receiverId = rid, content = text, imageUrl = img,
                              timestamp = now\<rparr>
           in Inr (messageData, ws_send (Message messageData) st))"

definition sendTypingIndicator :: "string \<Rightarrow> bool \<Rightarrow> hook_state \<Rightarrow> hook_state" where
  "sendTypingIndicator conversationId isTyping st =
     (if \<not> socket_open st then st else ws_send (Typing conversationId isTyping) st)"

definition sendReadReceipt :: "nat \<Rightarrow> string \<Rightarrow> hook_state \<Rightarrow> hook_state" where
  "sendReadReceipt messageId conversationId st =
     (if \<not> socket_open st then st else ws_send (MarkRead messageId conversationId) st)"

definition sendStatusUpdate :: "string \<Rightarrow> hook_state \<Rightarrow> hook_state" where
  "sendStatusUpdate status st =
     (if \<not> socket_open st then st else ws_send (StatusUpdate status) st)"

definition joinConversation :: "string \<Rightarrow> hook_state \<Rightarrow> hook_state" where
  "joinConversation conversationId st =
     (if \<not> socket_open st then st else ws_send (JoinConversation conversationId) st)"

definition leaveConversation :: "string \<Rightarrow> hook_state \<Rightarrow> hook_state" where
  "leaveConversation conversationId st =
     (if \<not> socket_open st then st else ws_send (LeaveConversation conversationId) st)"

subsection \<open>Queries\<close>

definition isUserTyping :: "hook_state \<Rightarrow> string \<Rightarrow> nat \<Rightarrow> bool" where
  "isUserTyping st conversationId userId =
     (case typingUsers st conversationId of None \<Rightarrow> False | Some s \<Rightarrow> set_has s userId)"

definition getTypingUsers :: "hook_state \<Rightarrow> string \<Rightarrow> nat list" where
  "getTypingUsers st conversationId =
     (case typingUsers st conversationId of None \<Rightarrow> [] | Some s \<Rightarrow> s)"

definition isUserOnline :: "hook_state \<Rightarrow> nat \<Rightarrow> bool" where
  "isUserOnline st userId = set_has (onlineUsers st) userId"

text \<open>
  \<open>userStatuses.get(userId) || 'offline'\<close>: a missing entry and the empty string are
  both falsy.
\<close>

definition getUserStatus :: "hook_state \<Rightarrow> nat \<Rightarrow> string" where
  "getUserStatus st userId =
     (case userStatuses st userId of
        None \<Rightarrow> ''offline''
      | Some s \<Rightarrow> if s = [] then ''offline'' else s)"

section \<open>Conversation ids\<close>

text \<open>
  User ids are the numeric ids of the \<open>User\<close> records, natural numbers. JavaScript
  writes such a number (below \<open>10^21\<close>) as its decimal numeral, without leading zeros.
\<close>

definition digit_char :: "nat \<Rightarrow> char" where
  "digit_char d = char_of (48 + d)"

function toString :: "nat \<Rightarrow> string" where
  "toString n =
     (if n < 10 then [digit_char n] else toString (n div 10) @ [digit_char (n mod 10)])"
  by pat_completeness auto
termination
  by (relation "measure id") auto

declare toString.simps [simp del]

text \<open>
  The order of JavaScript strings: by UTF-16 code unit, a proper prefix first. The ids'
  numerals are ASCII, one code unit per character.
\<close>

fun str_less :: "string \<Rightarrow> string \<Rightarrow> bool" where
  "str_less [] [] = False"
| "str_less [] (y # ys) = True"
| "str_less (x # xs) [] = False"
| "str_less (x # xs) (y # ys) =
     ((of_char x :: nat) < of_char y \<or> (x = y \<and> str_less xs ys))"

text \<open>
  \<open>Array.prototype.sort()\<close> called without a comparison function: the elements are
  ordered by their string forms, and elements with equal strings keep their order. It is
  modelled as a stable insertion sort.
\<close>

fun sort_insert :: "nat \<Rightarrow> nat list \<Rightarrow> nat list" where
  "sort_insert x [] = [x]"
| "sort_insert x (y # ys) =
     (if str_less (toString y) (toString x) then y # sort_insert x ys else x # y # ys)"

definition js_sort :: "nat list \<Rightarrow> nat list" where
  "js_sort xs = foldr sort_insert xs []"

text \<open>\<open>Array.prototype.join(separator)\<close> on an array of numbers.\<close>

fun join :: "string \<Rightarrow> nat list \<Rightarrow> string" where
  "join sep [] = []"
| "join sep [x] = toString x"
| "join sep (x # y # ys) = toString x @ sep @ join sep (y # ys)"

text \<open>
  The conversation id of \<open>FriendChat\<close> and \<open>RealTimeChat\<close>:
  \<open>selected && user ? [user.id, selected.id].sort().join('_') : null\<close>.
\<close>

definition conversationId :: "nat option \<Rightarrow> nat option \<Rightarrow> string option" where
  "conversationId me selected =
     (case (selected, me) of
        (Some s, Some u) \<Rightarrow> Some (join ''_'' (js_sort [u, s]))
      | _ \<Rightarrow> None)"

section \<open>The call modal \<open>VideoCallModal\<close>\<close>

text \<open>
  The model covers the signaling of the modal: media acquisition, the signaling socket
  and its handlers, the peer connections and the call buttons. Rendering (video
  elements, the remote stream, the mute and camera toggles, the call timer) is left out.
  Each handler is run to its end before the next event is taken.
\<close>

subsection \<open>Objects\<close>

datatype call_type = incoming | outgoing | active

text \<open>
  An \<open>RTCPeerConnection\<close>: the stream whose tracks were added, the two session
  descriptions, the remote candidates that \<open>addIceCandidate\<close> has accepted, oldest
  first, and whether \<open>close()\<close> was called.
\<close>

record peer_connection =
  pc_tracks :: "nat option"
  pc_localDescription :: "string option"
  pc_remoteDescription :: "string option"
  pc_candidates :: "string list"
  pc_closed :: bool

text \<open>
  The envelopes the modal sends, with the fields of the JSON object in the order
  \<open>callId\<close>, payload, \<open>targetUserId\<close> (and \<open>userId\<close> for \<open>create_video_call\<close>). A field
  read from a null value is absent (\<open>None\<close>).
\<close>

datatype signal =
    create_video_call string "nat option" "nat option"
  | offer_to "string option" string "nat option"
  | answer_to "string option" string "nat option"
  | ice_candidate_to "string option" string "nat option"
  | reject_call string "nat option"
  | end_call string "nat option"

text \<open>The envelopes \<open>ws.onmessage\<close> distinguishes by \<open>data.type\<close>.\<close>

datatype call_message =
    call_accepted
  | call_rejected
  | call_ended
  | ice_candidate string
  | offer string
  | answer string
  | other_type string

text \<open>
  A signaling socket made by \<open>initializeWebRTC\<close>: the stream its handlers were made
  with (the argument \<open>localStream\<close>), its ready state and what was sent on it.
\<close>

record call_socket =
  ws_localStream :: nat
  ws_readyState :: ready_state
  ws_sent :: "signal list"

datatype media_error = MediaError string

text \<open>
  The modal's React state, its \<open>isOpen\<close> property (which \<open>onClose\<close> clears), the toasts
  shown, and the objects made so far. A peer connection or socket is referred to by its
  position in \<open>connections\<close> or \<open>sockets\<close>; objects are never removed, so a reference stays
  valid.
\<close>

record modal_state =
  isOpen :: bool
  localStream :: "nat option"
  peerConnection :: "nat option"
  websocket :: "nat option"
  callId :: "string option"
  isConnecting :: bool
  connectionStatus :: string
  isCallActive :: bool
  toasts :: "string list"
  connections :: "peer_connection list"
  sockets :: "call_socket list"

text \<open>
  A handler is a closure: it reads the properties and state variables of the render
  that made it, not the current ones. \<open>render\<close> holds those captured values.
\<close>

record render =
  r_callType :: call_type
  r_user :: "nat option"
  r_otherUser :: "nat option"
  r_localStream :: "nat option"
  r_peerConnection :: "nat option"
  r_websocket :: "nat option"
  r_callId :: "string option"

text \<open>The values a render in state \<open>st\<close> hands to the closures it makes.\<close>

definition render_of :: "call_type \<Rightarrow> nat option \<Rightarrow> nat option \<Rightarrow> modal_state \<Rightarrow> render" where
  "render_of ct me other st =
     \<lparr>r_callType = ct, r_user = me, r_otherUser = other, r_localStream = localStream st,
      r_peerConnection = peerConnection st, r_websocket = websocket st,
      r_callId = callId st\<rparr>"

definition initial_modal :: modal_state where
  "initial_modal =
     \<lparr>isOpen = True, localStream = None, peerConnection = None, websocket = None,
      callId = None, isConnecting = False, connectionStatus = [], isCallActive = False,
      toasts = [], connections = [], sockets = []\<rparr>"

subsection \<open>Browser operations\<close>

text \<open>
  \<open>websocket.send\<close> behind the test \<open>if (websocket)\<close>: nothing without a socket; an open
  socket transmits; a closing or closed one discards the data.
\<close>

definition send_on :: "nat option \<Rightarrow> signal \<Rightarrow> modal_state \<Rightarrow> modal_state" where
  "send_on w e st =
     (case w of
        None \<Rightarrow> st
      | Some i \<Rightarrow>
          if i < length (sockets st) \<and> ws_readyState (sockets st ! i) = OPEN
          then st\<lparr>sockets := (sockets st)[i := (sockets st ! i)
                     \<lparr>ws_sent := ws_sent (sockets st ! i) @ [e]\<rparr>]\<rparr>
          else st)"

text \<open>
  \<open>pc.addIceCandidate\<close>: the browser rejects a candidate when the connection has no
  remote description or is closed; the rejection is caught by the handler's \<open>catch\<close>
  and logged. Otherwise the candidate is added.
\<close>

definition addIceCandidate :: "nat \<Rightarrow> string \<Rightarrow> modal_state \<Rightarrow> modal_state" where
  "addIceCandidate i c st =
     (if i < length (connections st)
         \<and> pc_remoteDescription (connections st ! i) \<noteq> None
         \<and> \<not> pc_closed (connections st ! i)
      then st\<lparr>connections := (connections st)[i := (connections st ! i)
                 \<lparr>pc_candidates := pc_candidates (connections st ! i) @ [c]\<rparr>]\<rparr>
      else st)"

text \<open>\<open>pc.setRemoteDescription\<close>; a closed connection rejects it.\<close>

definition setRemoteDescription :: "nat \<Rightarrow> string \<Rightarrow> modal_state \<Rightarrow> modal_state" where
  "setRemoteDescription i d st =
     (if i < length (connections st) \<and> \<not> pc_closed (connections st ! i)
      then st\<lparr>connections := (connections st)[i := (connections st ! i)
                 \<lparr>pc_remoteDescription := Some d\<rparr>]\<rparr>
      else st)"

definition toast :: "string \<Rightarrow> modal_state \<Rightarrow> modal_state" where
  "toast title st = st\<lparr>toasts := toasts st @ [title]\<rparr>"

definition onClose :: "modal_state \<Rightarrow> modal_state" where
  "onClose st = st\<lparr>isOpen := False\<rparr>"

subsection \<open>The modal's functions\<close>

text \<open>
  \<open>createPeerConnection\<close>: a new connection with the local tracks becomes the state's
  \<open>peerConnection\<close>; the offer \<open>sdp\<close> that the browser generates is set as local
  description and sent on the captured \<open>websocket\<close>, if there is one.
\<close>

definition createPeerConnection :: "render \<Rightarrow> nat \<Rightarrow> string \<Rightarrow> modal_state \<Rightarrow> modal_state" where
  "createPeerConnection env stream sdp st =
     (let pc = \<lparr>pc_tracks = Some stream, pc_localDescription = Some sdp,
                pc_remoteDescription = None, pc_candidates = [], pc_closed = False\<rparr>;
          st1 = st\<lparr>connections := connections st @ [pc],
                   peerConnection := Some (length (connections st))\<rparr>
      in send_on (r_websocket env) (offer_to (r_callId env) sdp (r_otherUser env)) st1)"

text \<open>
  \<open>handleIncomingCall\<close>: a new connection with the local tracks becomes the state's
  \<open>peerConnection\<close>; the received offer is set as remote description, the answer \<open>sdp\<close>
  that the browser generates as local description, and the answer is sent on the
  captured \<open>websocket\<close>, if there is one.
\<close>

definition handleIncomingCall ::
  "render \<Rightarrow> string \<Rightarrow> nat \<Rightarrow> string \<Rightarrow> modal_state \<Rightarrow> modal_state" where
  "handleIncomingCall env remote_offer stream sdp st =
     (let pc = \<lparr>pc_tracks = Some stream, pc_localDescription = Some sdp,
                pc_remoteDescription = Some remote_offer, pc_candidates = [],
                pc_closed = False\<rparr>;
          st1 = st\<lparr>connections := connections st @ [pc],
                   peerConnection := Some (length (connections st))\<rparr>
      in send_on (r_websocket env) (answer_to (r_callId env) sdp (r_otherUser env)) st1)"

text \<open>
  \<open>cleanupMedia\<close>: each captured object that is not null is stopped or closed and its
  state variable cleared; \<open>websocket.close()\<close> starts the closing handshake.
\<close>

definition cleanupMedia :: "render \<Rightarrow> modal_state \<Rightarrow> modal_state" where
  "cleanupMedia env st =
     (let st1 = (case r_localStream env of None \<Rightarrow> st | Some _ \<Rightarrow> st\<lparr>localStream := None\<rparr>);
          st2 = (case r_peerConnection env of
                   None \<Rightarrow> st1
                 | Some i \<Rightarrow>
                     st1\<lparr>connections :=
                           (if i < length (connections st1)
                            then (connections st1)[i := (connections st1 ! i)\<lparr>pc_closed := True\<rparr>]
                            else connections st1),
                         peerConnection := None\<rparr>);
          st3 = (case r_websocket env of
                   None \<Rightarrow> st2
                 | Some j \<Rightarrow>
                     st2\<lparr>sockets :=
                           (if j < length (sockets st2)
                               \<and> ws_readyState (sockets st2 ! j) \<noteq> CLOSED
                            then (sockets st2)[j := (sockets st2 ! j)\<lparr>ws_readyState := CLOSING\<rparr>]
                            else sockets st2),
                         websocket := None\<rparr>)
      in st3\<lparr>isCallActive := False\<rparr>)"

definition endCall :: "render \<Rightarrow> modal_state \<Rightarrow> modal_state" where
  "endCall env st = onClose (cleanupMedia env st)"

text \<open>
  \<open>initializeWebRTC\<close>: a new socket whose handlers hold the stream. Nothing is sent
  here; the socket sends from its handlers. The browser is taken to construct the socket
  (the URL is built from the page's own location).
\<close>

definition initializeWebRTC :: "nat \<Rightarrow> modal_state \<Rightarrow> modal_state" where
  "initializeWebRTC stream st =
     st\<lparr>sockets := sockets st @
          [\<lparr>ws_localStream = stream, ws_readyState = CONNECTING, ws_sent = []\<rparr>]\<rparr>"

text \<open>
  \<open>initializeMedia\<close>, given the outcome of \<open>getUserMedia\<close>: a rejection goes to the
  \<open>catch\<close> block (toast, \<open>onClose\<close>); a stream is stored and handed to
  \<open>initializeWebRTC\<close>. The \<open>finally\<close> block clears \<open>isConnecting\<close>.
\<close>

definition initializeMedia :: "media_error + nat \<Rightarrow> modal_state \<Rightarrow> modal_state" where
  "initializeMedia media st =
     (let st1 = st\<lparr>isConnecting := True, connectionStatus := ''Accessing camera...''\<rparr>;
          st2 = (case media of
                   Inl _ \<Rightarrow> onClose (toast ''Camera access failed'' st1)
                 | Inr stream \<Rightarrow>
                     initializeWebRTC stream
                       (st1\<lparr>localStream := Some stream,
                            connectionStatus := ''Connecting to peer...''\<rparr>))
      in st2\<lparr>isConnecting := False\<rparr>)"

subsection \<open>Socket handlers\<close>

text \<open>
  \<open>ws.onopen\<close> of socket \<open>w\<close>: the socket becomes the state's \<open>websocket\<close>, a new call id
  (\<open>call_<time>_<random>\<close>, an argument here) is stored and \<open>create_video_call\<close> is sent
  on the socket itself.
\<close>

definition call_onopen :: "render \<Rightarrow> nat \<Rightarrow> string \<Rightarrow> modal_state \<Rightarrow> modal_state" where
  "call_onopen env w newCallId st =
     (if w < length (sockets st)
      then send_on (Some w) (create_video_call newCallId (r_otherUser env) (r_user env))
             (st\<lparr>sockets := (sockets st)[w := (sockets st ! w)\<lparr>ws_readyState := OPEN\<rparr>],
                 websocket := Some w, callId := Some newCallId\<rparr>)
      else st)"

text \<open>
  \<open>ws.onmessage\<close> of socket \<open>w\<close>; \<open>sdp\<close> is the description the browser generates if the
  handler asks for an offer or an answer.
\<close>

definition call_onmessage ::
  "render \<Rightarrow> nat \<Rightarrow> string \<Rightarrow> call_message \<Rightarrow> modal_state \<Rightarrow> modal_state" where
  "call_onmessage env w sdp msg st =
     (if w < length (sockets st)
      then
        (case msg of
           call_accepted \<Rightarrow>
             createPeerConnection env (ws_localStream (sockets st ! w)) sdp
               (st\<lparr>connectionStatus := ''Call accepted, establishing connection...''\<rparr>)
         | call_rejected \<Rightarrow> onClose (toast ''Call rejected'' st)
         | call_ended \<Rightarrow> endCall env (toast ''Call ended'' st)
         | ice_candidate c \<Rightarrow>
             (case r_peerConnection env of
                None \<Rightarrow> st
              | Some i \<Rightarrow> addIceCandidate i c st)
         | offer d \<Rightarrow>
             (if r_callType env = incoming
              then handleIncomingCall env d (ws_localStream (sockets st ! w)) sdp st
              else st)
         | answer a \<Rightarrow>
             (case r_peerConnection env of
                None \<Rightarrow> st
              | Some i \<Rightarrow> setRemoteDescription i a st)
         | other_type _ \<Rightarrow> st)
      else st)"

text \<open>\<open>ws.onclose\<close> of socket \<open>w\<close>.\<close>

definition call_onclose :: "nat \<Rightarrow> modal_state \<Rightarrow> modal_state" where
  "call_onclose w st =
     (if w < length (sockets st)
      then st\<lparr>sockets := (sockets st)[w := (sockets st ! w)\<lparr>ws_readyState := CLOSED\<rparr>],
              websocket := None\<rparr>
      else st)"

subsection \<open>Buttons and local candidates\<close>

definition handleRejectCall :: "render \<Rightarrow> modal_state \<Rightarrow> modal_state" where
  "handleRejectCall env st =
     onClose
       (case (r_websocket env, r_callId env) of
          (Some w, Some c) \<Rightarrow> send_on (Some w) (reject_call c (r_otherUser env)) st
        | _ \<Rightarrow> st)"

definition handleEndCall :: "render \<Rightarrow> modal_state \<Rightarrow> modal_state" where
  "handleEndCall env st =
     endCall env
       (case (r_websocket env, r_callId env) of
          (Some w, Some c) \<Rightarrow> send_on (Some w) (end_call c (r_otherUser env)) st
        | _ \<Rightarrow> st)"

text \<open>\<open>pc.onicecandidate\<close> with a candidate found locally.\<close>

definition onicecandidate :: "render \<Rightarrow> string \<Rightarrow> modal_state \<Rightarrow> modal_state" where
  "onicecandidate env c st =
     send_on (r_websocket env) (ice_candidate_to (r_callId env) c (r_otherUser env)) st"

subsection \<open>Runs\<close>

text \<open>
  What can happen to a mounted modal. \<open>InitializeMedia\<close> stands for the mount effect of
  an outgoing call and for \<open>handleAcceptCall\<close>, with the outcome of \<open>getUserMedia\<close>;
  \<open>EffectCleanup\<close> is the cleanup of that effect, which calls \<open>cleanupMedia\<close>. Each event
  comes with the render whose closure handles it.
\<close>

datatype modal_event =
    InitializeMedia "media_error + nat"
  | SocketOpen nat string
  | SocketMessage nat string call_message
  | SocketClose nat
  | RejectClicked
  | EndClicked
  | LocalCandidate string
  | EffectCleanup

fun modal_step :: "render \<times> modal_event \<Rightarrow> modal_state \<Rightarrow> modal_state" where
  "modal_step (env, InitializeMedia media) st = initializeMedia media st"
| "modal_step (env, SocketOpen w newCallId) st = call_onopen env w newCallId st"
| "modal_step (env, SocketMessage w sdp msg) st = call_onmessage env w sdp msg st"
| "modal_step (env, SocketClose w) st = call_onclose w st"
| "modal_step (env, RejectClicked) st = handleRejectCall env st"
| "modal_step (env, EndClicked) st = handleEndCall env st"
| "modal_step (env, LocalCandidate c) st = onicecandidate env c st"
| "modal_step (env, EffectCleanup) st = cleanupMedia env st"

definition modal_run :: "(render \<times> modal_event) list \<Rightarrow> modal_state \<Rightarrow> modal_state" where
  "modal_run evs st = foldl (\<lambda>s e. modal_step e s) st evs"

text \<open>All envelopes the modal has sent, socket by socket.\<close>

definition all_sent :: "modal_state \<Rightarrow> signal list" where
  "all_sent st = concat (map ws_sent (sockets st))"

text \<open>The candidates received in a run, in arrival order.\<close>

fun received_candidates :: "(render \<times> modal_event) list \<Rightarrow> string list" where
  "received_candidates [] = []"
| "received_candidates ((env, SocketMessage w sdp (ice_candidate c)) # evs) =
     c # received_candidates evs"
| "received_candidates (_ # evs) = received_candidates evs"

text \<open>The remote description and the applied candidates of the state's peer connection.\<close>

definition remote_description :: "modal_state \<Rightarrow> string option" where
  "remote_description st =
     (case peerConnection st of
        None \<Rightarrow> None
      | Some i \<Rightarrow> if i < length (connections st)
                  then pc_remoteDescription (connections st ! i) else None)"

definition applied_candidates :: "modal_state \<Rightarrow> string list" where
  "applied_candidates st =
     (case peerConnection st of
        None \<Rightarrow> []
      | Some i \<Rightarrow> if i < length (connections st)
                  then pc_candidates (connections st ! i) else [])"

section \<open>Scenarios and auxiliary notions\<close>

text \<open>A hook in which user 3 is typing in the conversation with user 17.\<close>

definition demo_typing :: hook_state where
  "demo_typing = handleMessage (typing ''3_17'' 3 True) (initial_hook (Some 17))"

text \<open>A hook in which user 17 is typing in \<open>3_17\<close> and user 9 in \<open>5_9\<close>.\<close>

definition demo_two_typing :: hook_state where
  "demo_two_typing =
     handleMessages [typing ''3_17'' 17 True, typing ''5_9'' 9 True] (initial_hook (Some 3))"

text \<open>
  The render of a freshly mounted modal for a call from user 1 to user 2, on the
  callee's side: no stream, no peer connection, no socket and no call id yet. The
  closures made when the callee accepts hold these values.
\<close>

definition callee_render :: render where
  "callee_render = render_of incoming (Some 2) (Some 1) initial_modal"

text \<open>
  The callee accepts, the camera is granted, the socket opens, and the caller's first
  candidate arrives before the caller's offer.
\<close>

definition ice_before_offer :: "(render \<times> modal_event) list" where
  "ice_before_offer =
     [(callee_render, InitializeMedia (Inr 7)),
      (callee_render, SocketOpen 0 ''call_1''),
      (callee_render, SocketMessage 0 ''answer-sdp'' (ice_candidate ''candidate-1'')),
      (callee_render, SocketMessage 0 ''answer-sdp'' (offer ''offer-sdp''))]"

definition in_call :: modal_state where
  "in_call = modal_run ice_before_offer initial_modal"

text \<open>A render of the callee's modal made while that call is up.\<close>

definition live_render :: render where
  "live_render = render_of incoming (Some 2) (Some 1) in_call"

text \<open>The camera is refused; a socket event and a click follow all the same.\<close>

definition camera_denied :: "(render \<times> modal_event) list" where
  "camera_denied =
     [(callee_render, InitializeMedia (Inl (MediaError ''NotAllowedError''))),
      (callee_render, SocketOpen 0 ''call_1''),
      (callee_render, SocketMessage 0 ''sdp'' call_accepted),
      (callee_render, EndClicked)]"

text \<open>
  The number a string of decimal digits denotes, and the test that a string consists of
  decimal digits; both serve the proofs about the order of the ids' numerals.
\<close>

fun dval :: "string \<Rightarrow> nat" where
  "dval [] = 0"
| "dval (c # cs) = (of_char c - 48) * 10 ^ length cs + dval cs"

definition digits :: "string \<Rightarrow> bool" where
  "digits cs = (\<forall>c \<in> set cs. 48 \<le> (of_char c :: nat) \<and> (of_char c :: nat) < 58)"

section \<open>Properties of the realtime hook\<close>

subsection \<open>Reconnecting with backoff\<close>

lemma connect_keeps_timer:
  "reconnectAttempts (connect st) = reconnectAttempts st"
  "reconnectTimeout (connect st) = reconnectTimeout st"
  by (simp_all add: connect_def split: option.splits)

lemma onclose_schedules:
  "reconnectTimeout (ws_onclose st) =
     (if reconnectAttempts st < maxReconnectAttempts
      then Some (min (1000 * 2 ^ reconnectAttempts st) 10000)
      else reconnectTimeout st)"
  by (simp add: ws_onclose_def Let_def)

lemma failed_attempt_below_max:
  assumes "reconnectAttempts st < maxReconnectAttempts"
  shows "reconnectAttempts (failed_attempt st) = Suc (reconnectAttempts st)"
    and "reconnectTimeout (failed_attempt st) = None"
  using assms
  by (simp_all add: failed_attempt_def ws_onclose_def reconnect_timer_fires_def
      connect_keeps_timer Let_def)

lemma failed_attempt_at_max:
  assumes "\<not> reconnectAttempts st < maxReconnectAttempts" and "reconnectTimeout st = None"
  shows "reconnectAttempts (failed_attempt st) = reconnectAttempts st"
    and "reconnectTimeout (failed_attempt st) = None"
  using assms
  by (simp_all add: failed_attempt_def ws_onclose_def reconnect_timer_fires_def Let_def)

lemma failed_attempts_count:
  assumes "reconnectAttempts st = 0" and "n \<le> maxReconnectAttempts"
  shows "reconnectAttempts ((failed_attempt ^^ n) st) = n"
  using assms(2)
proof (induction n)
  case 0
  then show ?case by (simp add: assms(1))
next
  case (Suc n)
  then have "reconnectAttempts ((failed_attempt ^^ n) st) = n" and "n < maxReconnectAttempts"
    by simp_all
  then show ?case
    by (simp add: failed_attempt_below_max(1))
qed

lemma failed_attempts_exhausted:
  assumes "reconnectAttempts st = 0" and "maxReconnectAttempts \<le> n"
  shows "reconnectAttempts ((failed_attempt ^^ n) st) = maxReconnectAttempts
       \<and> reconnectTimeout ((failed_attempt ^^ n) st) = None"
  using assms(2)
proof (induction n rule: dec_induct)
  case base
  obtain k where k: "maxReconnectAttempts = Suc k"
    by (simp add: maxReconnectAttempts_def numeral_eq_Suc)
  let ?s = "(failed_attempt ^^ k) st"
  have unfold: "(failed_attempt ^^ maxReconnectAttempts) st = failed_attempt ?s"
    by (simp add: k)
  have "reconnectAttempts ?s = k"
    using assms(1) k by (intro failed_attempts_count) simp_all
  then have "reconnectAttempts ?s < maxReconnectAttempts"
    by (simp add: k)
  from failed_attempt_below_max [OF this] \<open>reconnectAttempts ?s = k\<close>
  show ?case
    unfolding unfold by (simp add: k)
next
  case (step n)
  then show ?case
    using failed_attempt_at_max [of "(failed_attempt ^^ n) st"] by simp
qed

text \<open>
  Claim C3. Start from any state whose attempt counter is zero, as it is after an open.
  After \<open>N\<close> failed attempts in a row, with \<open>N < 5\<close>, the next close sets the timer to
  \<open>min (1000 * 2 ^ N) 10000\<close> milliseconds. After five or more failed attempts a close
  sets no timer, and nothing fires afterwards: a further round is the close alone. Every
  open resets the attempt counter to zero.
\<close>

theorem reconnect_backoff:
  assumes "reconnectAttempts st = 0"
  shows "(\<forall>N<5. reconnectTimeout (ws_onclose ((failed_attempt ^^ N) st))
                   = Some (min (1000 * 2 ^ N) 10000))
       \<and> (\<forall>N\<ge>5. reconnectTimeout (ws_onclose ((failed_attempt ^^ N) st)) = None
                \<and> failed_attempt ((failed_attempt ^^ N) st)
                    = ws_onclose ((failed_attempt ^^ N) st))
       \<and> reconnectAttempts (ws_onopen st') = 0"
proof (intro conjI allI impI)
  fix N :: nat
  assume "N < 5"
  then have "reconnectAttempts ((failed_attempt ^^ N) st) = N"
    using assms by (intro failed_attempts_count) (simp_all add: maxReconnectAttempts_def)
  with \<open>N < 5\<close> show "reconnectTimeout (ws_onclose ((failed_attempt ^^ N) st))
                   = Some (min (1000 * 2 ^ N) 10000)"
    by (simp add: onclose_schedules maxReconnectAttempts_def)
next
  fix N :: nat
  assume "5 \<le> N"
  then have *: "reconnectAttempts ((failed_attempt ^^ N) st) = maxReconnectAttempts
       \<and> reconnectTimeout ((failed_attempt ^^ N) st) = None"
    using assms by (intro failed_attempts_exhausted) (simp_all add: maxReconnectAttempts_def)
  then show "reconnectTimeout (ws_onclose ((failed_attempt ^^ N) st)) = None"
    by (simp add: onclose_schedules)
  from * show "failed_attempt ((failed_attempt ^^ N) st) = ws_onclose ((failed_attempt ^^ N) st)"
    by (simp add: failed_attempt_def reconnect_timer_fires_def onclose_schedules)
next
  show "reconnectAttempts (ws_onopen st') = 0"
    by (simp add: ws_onopen_def ws_send_def Let_def split: option.splits)
qed

text \<open>
  The delays of a hook that never gets through: 4000 ms before the third attempt,
  10000 ms before the fifth, and none after it.
\<close>

theorem reconnect_backoff_witness:
  "reconnectAttempts (initial_hook (Some 1)) = 0
   \<and> reconnectTimeout (ws_onclose ((failed_attempt ^^ 2) (initial_hook (Some 1)))) = Some 4000
   \<and> reconnectTimeout (ws_onclose ((failed_attempt ^^ 4) (initial_hook (Some 1)))) = Some 10000
   \<and> reconnectTimeout (ws_onclose ((failed_attempt ^^ 5) (initial_hook (Some 1)))) = None"
proof -
  have h: "reconnectAttempts (initial_hook (Some 1)) = 0"
    by (simp add: initial_hook_def)
  from reconnect_backoff [OF h] have
    "reconnectTimeout (ws_onclose ((failed_attempt ^^ 2) (initial_hook (Some 1))))
       = Some (min (1000 * 2 ^ 2) 10000)"
    "reconnectTimeout (ws_onclose ((failed_attempt ^^ 4) (initial_hook (Some 1))))
       = Some (min (1000 * 2 ^ 4) 10000)"
    "reconnectTimeout (ws_onclose ((failed_attempt ^^ 5) (initial_hook (Some 1)))) = None"
    by simp_all
  with h show ?thesis by simp
qed

subsection \<open>Sending\<close>

lemma socket_open_iff:
  "socket_open st \<longleftrightarrow> (\<exists>ws. wsRef st = Some ws \<and> readyState ws = OPEN)"
  by (simp add: socket_open_def split: option.splits)

text \<open>
  Claim C4. When there is no socket or the socket is not open, \<open>sendMessage\<close> ends at
  once with the error \<open>NotConnected\<close>; an error result carries no state, so nothing was
  transmitted. When the socket is open it returns the message data, and exactly the
  \<open>message\<close> envelope has been added to what the socket transmitted. The function is
  total: it never waits.
\<close>

theorem sendMessage_not_connected:
  "(wsRef st = None \<or> (\<exists>ws. wsRef st = Some ws \<and> readyState ws \<noteq> OPEN)
      \<longrightarrow> sendMessage rid txt img now st = Inl NotConnected)
   \<and> (\<forall>ws. wsRef st = Some ws \<and> readyState ws = OPEN \<longrightarrow>
        sendMessage rid txt img now st =
          Inr (\<lparr>receiverId = rid, content = txt, imageUrl = img, timestamp = now\<rparr>,
               st\<lparr>wsRef := Some (ws\<lparr>transmitted := transmitted ws @
                  [Message \<lparr>receiverId = rid, content = txt, imageUrl = img,
                            timestamp = now\<rparr>]\<rparr>)\<rparr>))"
  by (auto simp: sendMessage_def socket_open_def ws_send_def Let_def)

text \<open>
  A hook that never connected refuses the message; one whose socket has opened sends it
  after its \<open>join\<close> envelope.
\<close>

theorem sendMessage_not_connected_witness:
  "wsRef (initial_hook (Some 3)) = None
   \<and> sendMessage 17 ''hi'' None ''2024-01-01T00:00:00.000Z'' (initial_hook (Some 3))
       = Inl NotConnected
   \<and> wsRef (ws_onopen (connect (initial_hook (Some 3))))
       = Some \<lparr>readyState = OPEN, transmitted = [Join 3]\<rparr>
   \<and> map_sum id (\<lambda>(md, st'). (md, map_option transmitted (wsRef st')))
         (sendMessage 17 ''hi'' None ''2024-01-01T00:00:00.000Z''
            (ws_onopen (connect (initial_hook (Some 3)))))
       = Inr (\<lparr>receiverId = 17, content = ''hi'', imageUrl = None,
                timestamp = ''2024-01-01T00:00:00.000Z''\<rparr>,
              Some [Join 3, Message \<lparr>receiverId = 17, content = ''hi'', imageUrl = None,
                  timestamp = ''2024-01-01T00:00:00.000Z''\<rparr>])"
proof -
  have a: "wsRef (initial_hook (Some 3)) = None"
    by (simp add: initial_hook_def)
  have b: "wsRef (ws_onopen (connect (initial_hook (Some 3))))
             = Some \<lparr>readyState = OPEN, transmitted = [Join 3]\<rparr>"
    by (simp add: initial_hook_def connect_def ws_onopen_def ws_send_def)
  from a sendMessage_not_connected [of "initial_hook (Some 3)" 17 "''hi''" None
      "''2024-01-01T00:00:00.000Z''"]
  have c: "sendMessage 17 ''hi'' None ''2024-01-01T00:00:00.000Z'' (initial_hook (Some 3))
       = Inl NotConnected"
    by blast
  from b sendMessage_not_connected [of "ws_onopen (connect (initial_hook (Some 3)))" 17
      "''hi''" None "''2024-01-01T00:00:00.000Z''"]
  have d: "sendMessage 17 ''hi'' None ''2024-01-01T00:00:00.000Z''
               (ws_onopen (connect (initial_hook (Some 3))))
          = Inr (\<lparr>receiverId = 17, content = ''hi'', imageUrl = None,
                  timestamp = ''2024-01-01T00:00:00.000Z''\<rparr>,
                 (ws_onopen (connect (initial_hook (Some 3))))
                 \<lparr>wsRef := Some (\<lparr>readyState = OPEN, transmitted = [Join 3]\<rparr>
                    \<lparr>transmitted := transmitted \<lparr>readyState = OPEN, transmitted = [Join 3]\<rparr> @
                  [Message \<lparr>receiverId = 17, content = ''hi'', imageUrl = None,
                            timestamp = ''2024-01-01T00:00:00.000Z''\<rparr>]\<rparr>)\<rparr>)"
    by simp
  show ?thesis
    using a b c by (simp add: d)
qed

text \<open>
  Claim C10. When there is no socket or the socket is not open, \<open>sendTypingIndicator\<close>,
  \<open>sendReadReceipt\<close>, \<open>sendStatusUpdate\<close>, \<open>joinConversation\<close> and \<open>leaveConversation\<close>
  return the state they were given: nothing is transmitted and the online set, the status
  map and the typing map are as before. They have no error result at all; \<open>sendMessage\<close>
  in the same state raises \<open>NotConnected\<close>.
\<close>

theorem silent_when_not_open:
  assumes "wsRef st = None \<or> (\<exists>ws. wsRef st = Some ws \<and> readyState ws \<noteq> OPEN)"
  shows "sendTypingIndicator c1 b st = st
       \<and> sendReadReceipt m c2 st = st
       \<and> sendStatusUpdate s st = st
       \<and> joinConversation c3 st = st
       \<and> leaveConversation c4 st = st
       \<and> sendMessage rid txt img now st = Inl NotConnected"
proof -
  from assms have "\<not> socket_open st"
    by (auto simp: socket_open_iff)
  then show ?thesis
    by (simp add: sendTypingIndicator_def sendReadReceipt_def sendStatusUpdate_def
        joinConversation_def leaveConversation_def sendMessage_def)
qed

text \<open>A hook whose socket is still connecting.\<close>

theorem silent_when_not_open_witness:
  "wsRef (connect (initial_hook (Some 3))) = Some \<lparr>readyState = CONNECTING, transmitted = []\<rparr>
   \<and> sendTypingIndicator ''3_17'' True (connect (initial_hook (Some 3)))
       = connect (initial_hook (Some 3))
   \<and> sendReadReceipt 40 ''3_17'' (connect (initial_hook (Some 3)))
       = connect (initial_hook (Some 3))
   \<and> sendStatusUpdate ''away'' (connect (initial_hook (Some 3)))
       = connect (initial_hook (Some 3))
   \<and> joinConversation ''3_17'' (connect (initial_hook (Some 3)))
       = connect (initial_hook (Some 3))
   \<and> leaveConversation ''3_17'' (connect (initial_hook (Some 3)))
       = connect (initial_hook (Some 3))
   \<and> sendMessage 17 ''hi'' None ''2024-01-01T00:00:00.000Z'' (connect (initial_hook (Some 3)))
       = Inl NotConnected"
proof -
  have a: "wsRef (connect (initial_hook (Some 3)))
             = Some \<lparr>readyState = CONNECTING, transmitted = []\<rparr>"
    by (simp add: initial_hook_def connect_def)
  then have "wsRef (connect (initial_hook (Some 3))) = None
     \<or> (\<exists>ws. wsRef (connect (initial_hook (Some 3))) = Some ws \<and> readyState ws \<noteq> OPEN)"
    by simp
  from silent_when_not_open [OF this] a show ?thesis
    by simp
qed

subsection \<open>Presence\<close>

text \<open>
  Claim C8. In every state, and so after every sequence of presence events, handling an
  \<open>offline\<close> event for user \<open>u\<close> leaves \<open>u\<close> not online and with status \<open>offline\<close>,
  whatever was recorded for \<open>u\<close> before. A user with no recorded status has status
  \<open>offline\<close>.
\<close>

theorem offline_event:
  "\<not> isUserOnline (handleMessage (offline u) st) u
   \<and> getUserStatus (handleMessage (offline u) st) u = ''offline''
   \<and> (userStatuses st v = None \<longrightarrow> getUserStatus st v = ''offline'')"
  by (simp add: isUserOnline_def getUserStatus_def set_has_def set_delete_def)

text \<open>User 17 comes online and sets the status \<open>busy\<close>, then goes offline; user 5 is unknown.\<close>

theorem offline_event_witness:
  "isUserOnline (handleMessages [online 17, user_status 17 ''busy''] (initial_hook (Some 3))) 17
   \<and> getUserStatus (handleMessages [online 17, user_status 17 ''busy''] (initial_hook (Some 3))) 17
       = ''busy''
   \<and> \<not> isUserOnline (handleMessage (offline 17)
          (handleMessages [online 17, user_status 17 ''busy''] (initial_hook (Some 3)))) 17
   \<and> getUserStatus (handleMessage (offline 17)
          (handleMessages [online 17, user_status 17 ''busy''] (initial_hook (Some 3)))) 17
       = ''offline''
   \<and> userStatuses (initial_hook (Some 3)) 5 = None
   \<and> getUserStatus (initial_hook (Some 3)) 5 = ''offline''"
proof -
  have before: "isUserOnline
       (handleMessages [online 17, user_status 17 ''busy''] (initial_hook (Some 3))) 17
     \<and> getUserStatus
       (handleMessages [online 17, user_status 17 ''busy''] (initial_hook (Some 3))) 17 = ''busy''"
    by (simp add: handleMessages_def initial_hook_def isUserOnline_def getUserStatus_def
        set_has_def set_add_def)
  have unknown: "userStatuses (initial_hook (Some 3)) 5 = None"
    by (simp add: initial_hook_def)
  from offline_event [of 17
      "handleMessages [online 17, user_status 17 ''busy''] (initial_hook (Some 3))"]
    offline_event [of 5 "initial_hook (Some 3)" 5] before unknown
  show ?thesis
    by blast
qed

subsection \<open>The typing registry\<close>

lemma set_add_idem: "set_add u (set_add u s) = set_add u s"
  by (simp add: set_add_def)

lemma set_add_nonempty: "set_add u s \<noteq> []"
  by (auto simp: set_add_def)

lemma typing_update_same:
  "typing_update c u b m c =
     (let s = (case m c of None \<Rightarrow> [] | Some s \<Rightarrow> s);
          s' = (if b then set_add u s else set_delete u s)
      in if s' = [] then None else Some s')"
  by (simp add: typing_update_def Let_def split: option.splits)

lemma typing_update_other:
  "k \<noteq> c \<Longrightarrow> typing_update c u b m k = m k"
  by (simp add: typing_update_def Let_def split: option.splits)

lemma typing_update_no_empty:
  assumes "\<forall>k. m k \<noteq> Some []"
  shows "typing_update c u b m k \<noteq> Some []"
proof (cases "k = c")
  case True
  then show ?thesis by (simp add: typing_update_same Let_def)
next
  case False
  then show ?thesis using assms by (simp add: typing_update_other)
qed

lemma handleMessage_no_empty:
  assumes "\<forall>k. typingUsers st k \<noteq> Some []"
  shows "\<forall>k. typingUsers (handleMessage m st) k \<noteq> Some []"
  using assms
  by (cases m) (simp_all add: typing_update_no_empty forward_def)

lemma handleMessages_no_empty:
  assumes "\<forall>k. typingUsers st k \<noteq> Some []"
  shows "\<forall>k. typingUsers (handleMessages ms st) k \<noteq> Some []"
  using assms unfolding handleMessages_def
proof (induction ms arbitrary: st)
  case Nil
  then show ?case by simp
next
  case (Cons m ms)
  from Cons.prems have "\<forall>k. typingUsers (handleMessage m st) k \<noteq> Some []"
    by (rule handleMessage_no_empty)
  then show ?case
    using Cons.IH by simp
qed

lemma typing_update_add_twice:
  "typing_update c u True (typing_update c u True m) = typing_update c u True m"
proof
  fix k
  show "typing_update c u True (typing_update c u True m) k = typing_update c u True m k"
  proof (cases "k = c")
    case True
    then show ?thesis
      by (simp add: typing_update_same Let_def set_add_idem set_add_nonempty)
  next
    case False
    then show ?thesis by (simp add: typing_update_other)
  qed
qed

lemma typing_update_present:
  assumes "m c = Some s" and "u \<in> set s"
  shows "typing_update c u True m = m"
proof
  fix k
  show "typing_update c u True m k = m k"
  proof (cases "k = c")
    case True
    from assms(2) have "s \<noteq> []" by auto
    with True assms show ?thesis
      by (simp add: typing_update_same Let_def set_add_def)
  next
    case False
    then show ?thesis by (simp add: typing_update_other)
  qed
qed

lemma typing_membership:
  "handleMessage (typing c u True) (handleMessage (typing c u True) st)
     = handleMessage (typing c u True) st
   \<and> (isUserTyping st c u \<longrightarrow> handleMessage (typing c u True) st = st)
   \<and> isUserTyping (handleMessage (typing c u True) st) c u
   \<and> \<not> isUserTyping (handleMessage (typing c u False) st) c u
   \<and> (getTypingUsers st c = [u] \<longrightarrow>
         typingUsers (handleMessage (typing c u False) st) c = None)
   \<and> typingUsers (handleMessages ms (initial_hook me)) k \<noteq> Some []"
proof (intro conjI impI)
  show "handleMessage (typing c u True) (handleMessage (typing c u True) st)
     = handleMessage (typing c u True) st"
    by (simp add: typing_update_add_twice)
next
  assume "isUserTyping st c u"
  then obtain s where "typingUsers st c = Some s" and "u \<in> set s"
    by (auto simp: isUserTyping_def set_has_def split: option.splits)
  then have "typing_update c u True (typingUsers st) = typingUsers st"
    by (rule typing_update_present)
  then show "handleMessage (typing c u True) st = st"
    by simp
next
  show "isUserTyping (handleMessage (typing c u True) st) c u"
    by (simp add: isUserTyping_def typing_update_same Let_def set_add_nonempty set_has_def)
       (simp add: set_add_def)
next
  show "\<not> isUserTyping (handleMessage (typing c u False) st) c u"
    by (simp add: isUserTyping_def typing_update_same Let_def set_has_def set_delete_def)
next
  assume "getTypingUsers st c = [u]"
  then show "typingUsers (handleMessage (typing c u False) st) c = None"
    by (simp add: getTypingUsers_def typing_update_same Let_def set_delete_def
        split: option.splits)
next
  have "\<forall>k. typingUsers (initial_hook me) k \<noteq> Some []"
    by (simp add: initial_hook_def)
  then show "typingUsers (handleMessages ms (initial_hook me)) k \<noteq> Some []"
    using handleMessages_no_empty by blast
qed

text \<open>What a typing event does to the set of its conversation, and to nothing else.\<close>

lemma getTypingUsers_update:
  "getTypingUsers (handleMessage (typing c u b) st) c =
     (if b then set_add u (getTypingUsers st c) else set_delete u (getTypingUsers st c))"
  by (simp add: getTypingUsers_def typing_update_same Let_def split: option.splits)

lemma isUserTyping_members:
  "isUserTyping st c v \<longleftrightarrow> v \<in> set (getTypingUsers st c)"
  by (simp add: isUserTyping_def getTypingUsers_def set_has_def split: option.splits)

lemma typing_entry_shape:
  "typingUsers (handleMessage (typing c u b) st) c =
     (if getTypingUsers (handleMessage (typing c u b) st) c = [] then None
      else Some (getTypingUsers (handleMessage (typing c u b) st) c))"
  by (simp add: getTypingUsers_def typing_update_same Let_def split: option.splits)

lemma typing_frame:
  "handleMessage (typing c u b) st
     = st\<lparr>typingUsers := typingUsers (handleMessage (typing c u b) st)\<rparr>"
  by simp

text \<open>The sets of the registry never hold a user twice.\<close>

lemma typing_update_distinct:
  assumes "\<forall>k s. m k = Some s \<longrightarrow> distinct s"
  shows "typing_update c u b m k = Some s \<Longrightarrow> distinct s"
proof (cases "k = c")
  case True
  assume "typing_update c u b m k = Some s"
  with True assms show ?thesis
    by (auto simp: typing_update_same Let_def set_add_def set_delete_def
        split: option.splits if_splits)
next
  case False
  assume "typing_update c u b m k = Some s"
  with False assms show ?thesis by (simp add: typing_update_other)
qed

lemma handleMessage_distinct:
  assumes "\<forall>k s. typingUsers st k = Some s \<longrightarrow> distinct s"
  shows "\<forall>k s. typingUsers (handleMessage m st) k = Some s \<longrightarrow> distinct s"
proof (cases m)
  case (typing c u b)
  then show ?thesis
    using typing_update_distinct [OF assms] by auto
qed (use assms in \<open>simp_all add: forward_def\<close>)

lemma handleMessages_distinct:
  assumes "\<forall>k s. typingUsers st k = Some s \<longrightarrow> distinct s"
  shows "\<forall>k s. typingUsers (handleMessages ms st) k = Some s \<longrightarrow> distinct s"
  using assms unfolding handleMessages_def
proof (induction ms arbitrary: st)
  case Nil
  then show ?case by simp
next
  case (Cons m ms)
  from Cons.prems have "\<forall>k s. typingUsers (handleMessage m st) k = Some s \<longrightarrow> distinct s"
    by (rule handleMessage_distinct)
  then show ?case
    using Cons.IH by simp
qed

text \<open>
  Claim C9. Handling a typing event with \<open>isTyping\<close> true twice gives the same state as
  handling it once, and changes nothing at all when the user is already in the
  conversation's set; after it the user is typing in that conversation. After a typing
  event with \<open>isTyping\<close> false the user is not typing there, and when the user was the
  only one typing the conversation's entry is gone. After every sequence of envelopes,
  starting from a freshly mounted hook, no conversation id is mapped to an empty set.

  The event changes that one user in that one conversation and nothing else. With
  \<open>isTyping\<close> true the conversation's users are the ones before, in their order, with
  the user added at the end if new: any \<open>v\<close> is typing there afterwards exactly when \<open>v\<close>
  is the user or was typing before. With \<open>isTyping\<close> false they are the ones before, in
  their order, without the user: any \<open>v\<close> is typing there afterwards exactly when \<open>v\<close> is
  not the user and was typing before. The entry of every other conversation is as
  before, and so is every part of the state other than the typing map. The
  conversation's entry afterwards is absent exactly when nobody is left typing there. In
  every state reached from a freshly mounted hook no user is listed twice in a
  conversation.
\<close>

theorem typing_registry:
  "handleMessage (typing c u True) (handleMessage (typing c u True) st)
     = handleMessage (typing c u True) st
   \<and> (isUserTyping st c u \<longrightarrow> handleMessage (typing c u True) st = st)
   \<and> isUserTyping (handleMessage (typing c u True) st) c u
   \<and> \<not> isUserTyping (handleMessage (typing c u False) st) c u
   \<and> (getTypingUsers st c = [u] \<longrightarrow>
         typingUsers (handleMessage (typing c u False) st) c = None)
   \<and> typingUsers (handleMessages ms (initial_hook me)) k \<noteq> Some []
   \<and> getTypingUsers (handleMessage (typing c u True) st) c
       = (if u \<in> set (getTypingUsers st c) then getTypingUsers st c
          else getTypingUsers st c @ [u])
   \<and> getTypingUsers (handleMessage (typing c u False) st) c
       = filter (\<lambda>x. x \<noteq> u) (getTypingUsers st c)
   \<and> (isUserTyping (handleMessage (typing c u True) st) c v
        \<longleftrightarrow> v = u \<or> isUserTyping st c v)
   \<and> (isUserTyping (handleMessage (typing c u False) st) c v
        \<longleftrightarrow> v \<noteq> u \<and> isUserTyping st c v)
   \<and> (k' \<noteq> c \<longrightarrow>
        typingUsers (handleMessage (typing c u b) st) k' = typingUsers st k')
   \<and> handleMessage (typing c u b) st
       = st\<lparr>typingUsers := typingUsers (handleMessage (typing c u b) st)\<rparr>
   \<and> typingUsers (handleMessage (typing c u b) st) c
       = (if getTypingUsers (handleMessage (typing c u b) st) c = [] then None
          else Some (getTypingUsers (handleMessage (typing c u b) st) c))
   \<and> distinct (getTypingUsers (handleMessages ms (initial_hook me)) k)"
proof -
  have add: "getTypingUsers (handleMessage (typing c u True) st) c
       = (if u \<in> set (getTypingUsers st c) then getTypingUsers st c
          else getTypingUsers st c @ [u])"
    by (subst getTypingUsers_update) (simp add: set_add_def)
  have del: "getTypingUsers (handleMessage (typing c u False) st) c
       = filter (\<lambda>x. x \<noteq> u) (getTypingUsers st c)"
    by (subst getTypingUsers_update) (simp add: set_delete_def)
  have mem_add: "isUserTyping (handleMessage (typing c u True) st) c v
        \<longleftrightarrow> v = u \<or> isUserTyping st c v"
    unfolding isUserTyping_members add by auto
  have mem_del: "isUserTyping (handleMessage (typing c u False) st) c v
        \<longleftrightarrow> v \<noteq> u \<and> isUserTyping st c v"
    unfolding isUserTyping_members del by auto
  have other: "typingUsers (handleMessage (typing c u b) st) k' = typingUsers st k'"
    if "k' \<noteq> c"
    using that by (simp add: typing_update_other)
  have "\<forall>k s. typingUsers (initial_hook me) k = Some s \<longrightarrow> distinct s"
    by (simp add: initial_hook_def)
  then have "\<forall>k s. typingUsers (handleMessages ms (initial_hook me)) k = Some s
               \<longrightarrow> distinct s"
    by (rule handleMessages_distinct)
  then have dist: "distinct (getTypingUsers (handleMessages ms (initial_hook me)) k)"
    by (simp add: getTypingUsers_def split: option.splits)
  show ?thesis
    using typing_membership [of c u st ms me k] add del mem_add mem_del other
      typing_frame [of c u b st] typing_entry_shape [of c u b st] dist
    by blast
qed

text \<open>
  User 3 is the only one typing in conversation \<open>3_17\<close>: a repeated start changes
  nothing, and the stop removes the conversation's entry. With user 17 typing in \<open>3_17\<close>
  and user 9 in \<open>5_9\<close>: when user 3 starts in \<open>3_17\<close>, users 17 and 3 are typing there;
  when user 17 then stops, user 3 is left; the entry of \<open>5_9\<close> stays as it was.
\<close>

theorem typing_registry_witness:
  "isUserTyping demo_typing ''3_17'' 3
   \<and> handleMessage (typing ''3_17'' 3 True) demo_typing = demo_typing
   \<and> getTypingUsers demo_typing ''3_17'' = [3]
   \<and> typingUsers (handleMessage (typing ''3_17'' 3 False) demo_typing) ''3_17'' = None
   \<and> getTypingUsers demo_two_typing ''3_17'' = [17]
   \<and> getTypingUsers (handleMessage (typing ''3_17'' 3 True) demo_two_typing) ''3_17'' = [17, 3]
   \<and> getTypingUsers
        (handleMessage (typing ''3_17'' 17 False)
           (handleMessage (typing ''3_17'' 3 True) demo_two_typing)) ''3_17'' = [3]
   \<and> ''5_9'' \<noteq> ''3_17''
   \<and> typingUsers demo_two_typing ''5_9'' = Some [9]
   \<and> typingUsers (handleMessage (typing ''3_17'' 3 True) demo_two_typing) ''5_9'' = Some [9]"
proof -
  have a: "isUserTyping demo_typing ''3_17'' 3"
    by (simp add: demo_typing_def isUserTyping_def typing_update_def set_add_def
        set_has_def initial_hook_def)
  have b: "getTypingUsers demo_typing ''3_17'' = [3]"
    by (simp add: demo_typing_def getTypingUsers_def typing_update_def set_add_def
        initial_hook_def)
  from a b typing_registry [where c = "''3_17''" and u = 3 and st = demo_typing]
  have one: "handleMessage (typing ''3_17'' 3 True) demo_typing = demo_typing
     \<and> typingUsers (handleMessage (typing ''3_17'' 3 False) demo_typing) ''3_17'' = None"
    by blast
  have two: "getTypingUsers demo_two_typing ''3_17'' = [17]"
    and nine: "typingUsers demo_two_typing ''5_9'' = Some [9]"
    by (simp_all add: demo_two_typing_def handleMessages_def getTypingUsers_def
        typing_update_def set_add_def initial_hook_def)
  have ne: "''5_9'' \<noteq> ''3_17''"
    by simp
  from typing_registry [where c = "''3_17''" and u = 3 and st = demo_two_typing
      and k' = "''5_9''" and b = True] ne
  have started: "getTypingUsers (handleMessage (typing ''3_17'' 3 True) demo_two_typing) ''3_17''
       = (if 3 \<in> set (getTypingUsers demo_two_typing ''3_17'')
          then getTypingUsers demo_two_typing ''3_17''
          else getTypingUsers demo_two_typing ''3_17'' @ [3])"
    and kept: "typingUsers (handleMessage (typing ''3_17'' 3 True) demo_two_typing) ''5_9''
       = typingUsers demo_two_typing ''5_9''"
    by blast+
  from started two
  have started': "getTypingUsers (handleMessage (typing ''3_17'' 3 True) demo_two_typing) ''3_17''
       = [17, 3]"
    by simp
  from typing_registry [where c = "''3_17''" and u = 17
      and st = "handleMessage (typing ''3_17'' 3 True) demo_two_typing"]
  have "getTypingUsers
        (handleMessage (typing ''3_17'' 17 False)
           (handleMessage (typing ''3_17'' 3 True) demo_two_typing)) ''3_17''
       = filter (\<lambda>x. x \<noteq> 17)
           (getTypingUsers (handleMessage (typing ''3_17'' 3 True) demo_two_typing) ''3_17'')"
    by blast
  with started' have stopped: "getTypingUsers
        (handleMessage (typing ''3_17'' 17 False)
           (handleMessage (typing ''3_17'' 3 True) demo_two_typing)) ''3_17'' = [3]"
    by simp
  from a b one two started' stopped ne nine kept show ?thesis
    by simp
qed

section \<open>Properties of the conversation id\<close>

lemma str_less_asym: "str_less x y \<Longrightarrow> \<not> str_less y x"
  by (induction x y rule: str_less.induct) auto

lemma str_less_total: "\<not> str_less x y \<Longrightarrow> \<not> str_less y x \<Longrightarrow> x = y"
proof (induction x y rule: str_less.induct)
  case (4 x xs y ys)
  then have "(of_char x :: nat) = of_char y"
    by auto
  then have "x = y"
    by simp
  with 4 show ?case by auto
qed auto

lemma js_sort_pair:
  "js_sort [a, b] = (if str_less (toString b) (toString a) then [b, a] else [a, b])"
  by (simp add: js_sort_def)

lemma conversationId_pair:
  "conversationId (Some a) (Some b) =
     Some (if str_less (toString b) (toString a)
           then toString b @ ''_'' @ toString a
           else toString a @ ''_'' @ toString b)"
  by (simp add: conversationId_def js_sort_pair)

text \<open>
  Claim C7. For all user ids \<open>a\<close> and \<open>b\<close>, the conversation id that \<open>a\<close> derives for the
  chat with \<open>b\<close> is the one that \<open>b\<close> derives for the chat with \<open>a\<close>.
\<close>

theorem conversationId_symmetric:
  "conversationId (Some a) (Some b) = conversationId (Some b) (Some a)"
proof -
  consider "str_less (toString a) (toString b)" | "str_less (toString b) (toString a)"
    | "toString a = toString b"
    using str_less_total by blast
  then show ?thesis
  proof cases
    case 1
    then have "\<not> str_less (toString b) (toString a)" by (rule str_less_asym)
    with 1 show ?thesis by (simp add: conversationId_pair)
  next
    case 2
    then have "\<not> str_less (toString a) (toString b)" by (rule str_less_asym)
    with 2 show ?thesis by (simp add: conversationId_pair)
  next
    case 3
    then show ?thesis by (simp add: conversationId_pair)
  qed
qed

subsection \<open>The order of the two ids\<close>

lemma of_char_digit: "d < 10 \<Longrightarrow> (of_char (digit_char d) :: nat) = 48 + d"
  by (simp add: digit_char_def)

lemma digits_append: "digits (xs @ ys) \<longleftrightarrow> digits xs \<and> digits ys"
  by (auto simp: digits_def)

lemma dval_snoc: "dval (cs @ [c]) = dval cs * 10 + (of_char c - 48)"
  by (induction cs) (simp_all add: algebra_simps)

lemma toString_digits: "digits (toString n)"
proof (induction n rule: toString.induct)
  case (1 n)
  show ?case
  proof (cases "n < 10")
    case True
    then show ?thesis
      by (subst toString.simps) (simp add: digits_def of_char_digit)
  next
    case False
    with 1 have "digits (toString (n div 10))" by simp
    moreover have "digits [digit_char (n mod 10)]"
      by (simp add: digits_def of_char_digit)
    ultimately show ?thesis
      using False by (subst toString.simps) (simp add: digits_append)
  qed
qed

lemma dval_toString: "dval (toString n) = n"
proof (induction n rule: toString.induct)
  case (1 n)
  show ?case
  proof (cases "n < 10")
    case True
    then show ?thesis
      by (subst toString.simps) (simp add: of_char_digit)
  next
    case False
    with 1 have "dval (toString (n div 10)) = n div 10" by simp
    then show ?thesis
      using False by (subst toString.simps) (simp add: dval_snoc of_char_digit)
  qed
qed

lemma dval_bound: "digits cs \<Longrightarrow> dval cs < 10 ^ length cs"
proof (induction cs)
  case Nil
  then show ?case by simp
next
  case (Cons c cs)
  then have tail: "dval cs < 10 ^ length cs" and "(of_char c :: nat) - 48 \<le> 9"
    by (auto simp: digits_def)
  then have "(of_char c - 48) * 10 ^ length cs \<le> (9::nat) * 10 ^ length cs"
    by (intro mult_le_mono1)
  with tail have "(of_char c - 48) * 10 ^ length cs + dval cs < (10::nat) * 10 ^ length cs"
    by linarith
  then show ?case by simp
qed

text \<open>On numerals of the same length the string order is the order of the numbers.\<close>

lemma str_less_dval:
  assumes "length xs = length ys" and "digits xs" and "digits ys"
  shows "str_less xs ys \<longleftrightarrow> dval xs < dval ys"
  using assms
proof (induction xs ys rule: list_induct2)
  case Nil
  then show ?case by simp
next
  case (Cons x xs y ys)
  let ?p = "10 ^ length xs :: nat"
  let ?dx = "of_char x - 48 :: nat" and ?dy = "of_char y - 48 :: nat"
  from Cons.prems have dx: "48 \<le> (of_char x :: nat)" and dy: "48 \<le> (of_char y :: nat)"
    and tx: "digits xs" and ty: "digits ys"
    by (auto simp: digits_def)
  have bx: "dval xs < ?p" using tx by (rule dval_bound)
  have "dval ys < 10 ^ length ys" using ty by (rule dval_bound)
  then have by': "dval ys < ?p" using Cons.hyps by simp
  have IH: "str_less xs ys \<longleftrightarrow> dval xs < dval ys"
    using Cons.IH tx ty by simp
  consider (lt) "?dx < ?dy" | (eq) "?dx = ?dy" | (gt) "?dy < ?dx"
    by linarith
  then show ?case
  proof cases
    case lt
    then have "Suc ?dx \<le> ?dy" by simp
    then have "Suc ?dx * ?p \<le> ?dy * ?p" by (rule mult_le_mono1)
    then have "?dx * ?p + dval xs < ?dy * ?p + dval ys"
      using bx by simp
    moreover have "(of_char x :: nat) < of_char y" using lt by linarith
    ultimately show ?thesis using Cons.hyps by simp
  next
    case eq
    then have "(of_char x :: nat) = of_char y" using dx dy by linarith
    then have "x = y" by simp
    then show ?thesis using IH Cons.hyps by simp
  next
    case gt
    then have "Suc ?dy \<le> ?dx" by simp
    then have "Suc ?dy * ?p \<le> ?dx * ?p" by (rule mult_le_mono1)
    then have "\<not> ?dx * ?p + dval xs < ?dy * ?p + dval ys"
      using by' by simp
    moreover have "\<not> (of_char x :: nat) < of_char y" and "x \<noteq> y" using gt by auto
    ultimately show ?thesis using Cons.hyps by simp
  qed
qed

lemma str_less_toString:
  assumes "length (toString a) = length (toString b)"
  shows "str_less (toString a) (toString b) \<longleftrightarrow> a < b"
  using str_less_dval [OF assms toString_digits toString_digits]
  by (simp add: dval_toString)

text \<open>
  Claim C6, as the code has it. The conversation id of two user ids is their decimal
  numerals joined with \<open>_\<close>, the numeral that comes first in string order (code unit by
  code unit) on the left; a numeral that is not smaller in string order stays where
  \<open>[user.id, selected.id]\<close> put it. When the two numerals have the same number of digits,
  this is the ascending numeric order: the smaller id is on the left.
\<close>

theorem conversationId_string_order:
  "conversationId (Some a) (Some b) =
     Some (if str_less (toString b) (toString a)
           then toString b @ ''_'' @ toString a
           else toString a @ ''_'' @ toString b)
   \<and> (length (toString a) = length (toString b) \<longrightarrow>
        conversationId (Some a) (Some b)
          = Some (toString (min a b) @ ''_'' @ toString (max a b)))"
proof (intro conjI impI)
  show "conversationId (Some a) (Some b) =
     Some (if str_less (toString b) (toString a)
           then toString b @ ''_'' @ toString a
           else toString a @ ''_'' @ toString b)"
    by (rule conversationId_pair)
next
  assume "length (toString a) = length (toString b)"
  then have "str_less (toString b) (toString a) \<longleftrightarrow> b < a"
    using str_less_toString [of b a] by simp
  then show "conversationId (Some a) (Some b)
          = Some (toString (min a b) @ ''_'' @ toString (max a b))"
    by (simp add: conversationId_pair min_def max_def)
qed

text \<open>Users 30 and 17, both of two digits: the id is \<open>17_30\<close>.\<close>

theorem conversationId_string_order_witness:
  "length (toString 30) = length (toString 17)
   \<and> conversationId (Some 30) (Some 17) = Some ''17_30''"
proof -
  have len: "length (toString 30) = length (toString 17)"
    by code_simp
  have val: "toString (min 30 17) @ ''_'' @ toString (max 30 17) = ''17_30''"
    by code_simp
  from conversationId_string_order [of 30 17] len
  have "conversationId (Some 30) (Some 17)
          = Some (toString (min 30 17) @ ''_'' @ toString (max 30 17))"
    by blast
  with val have "conversationId (Some 30) (Some 17) = Some ''17_30''"
    by (simp only:)
  with len show ?thesis
    by (intro conjI)
qed

text \<open>
  Claim C6, as stated, fails for the ids 3 and 17: the numeral \<open>17\<close> comes before \<open>3\<close> in
  string order, so the id is \<open>17_3\<close>, not \<open>3_17\<close>.
\<close>

theorem conversationId_3_17:
  "conversationId (Some 3) (Some 17) = Some ''17_3''
   \<and> conversationId (Some 3) (Some 17) \<noteq> Some ''3_17''"
  by code_simp

section \<open>Properties of the call modal\<close>

subsection \<open>Sending on a socket\<close>

lemma send_on_keeps:
  "isOpen (send_on w e st) = isOpen st"
  "peerConnection (send_on w e st) = peerConnection st"
  "websocket (send_on w e st) = websocket st"
  "callId (send_on w e st) = callId st"
  "connections (send_on w e st) = connections st"
  "length (sockets (send_on w e st)) = length (sockets st)"
  by (simp_all add: send_on_def split: option.splits)

lemma send_on_no_socket: "sockets st = [] \<Longrightarrow> send_on w e st = st"
  by (simp add: send_on_def split: option.splits)

lemma all_sent_update:
  assumes "i < length ss"
  shows "set (concat (map ws_sent (ss[i := (ss ! i)\<lparr>ws_sent := ws_sent (ss ! i) @ [e]\<rparr>])))
           = insert e (set (concat (map ws_sent ss)))"
proof -
  have "ss[i := (ss ! i)\<lparr>ws_sent := ws_sent (ss ! i) @ [e]\<rparr>]
          = take i ss @ (ss ! i)\<lparr>ws_sent := ws_sent (ss ! i) @ [e]\<rparr> # drop (Suc i) ss"
    using assms by (rule upd_conv_take_nth_drop)
  moreover have "ss = take i ss @ ss ! i # drop (Suc i) ss"
    using assms by (simp add: id_take_nth_drop [symmetric])
  then have "set (concat (map ws_sent ss))
               = set (concat (map ws_sent (take i ss))) \<union> set (ws_sent (ss ! i))
                 \<union> set (concat (map ws_sent (drop (Suc i) ss)))"
    by (metis Un_assoc concat.simps(2) concat_append list.simps(9) map_append set_append)
  ultimately show ?thesis
    by auto
qed

lemma set_all_sent_send_on:
  "set (all_sent (send_on w e st)) \<subseteq> insert e (set (all_sent st))"
proof (cases "\<exists>i. w = Some i \<and> i < length (sockets st) \<and> ws_readyState (sockets st ! i) = OPEN")
  case True
  then obtain i where "w = Some i" and i: "i < length (sockets st)"
    and "ws_readyState (sockets st ! i) = OPEN"
    by blast
  then have "all_sent (send_on w e st)
     = concat (map ws_sent ((sockets st)[i := (sockets st ! i)
                     \<lparr>ws_sent := ws_sent (sockets st ! i) @ [e]\<rparr>]))"
    by (simp add: send_on_def all_sent_def)
  then show ?thesis
    using all_sent_update [OF i, of e] by (simp add: all_sent_def)
next
  case False
  then have "send_on w e st = st"
    by (auto simp: send_on_def split: option.splits)
  then show ?thesis by auto
qed

subsection \<open>Media acquisition comes first\<close>

lemma cleanupMedia_no_objects:
  assumes "sockets st = []" and "connections st = []"
  shows "sockets (cleanupMedia env st) = []" and "connections (cleanupMedia env st) = []"
    and "callId (cleanupMedia env st) = callId st"
    and "peerConnection st = None \<Longrightarrow> peerConnection (cleanupMedia env st) = None"
  using assms by (simp_all add: cleanupMedia_def Let_def split: option.splits)

text \<open>
  As long as no socket exists, an event other than a successful media acquisition
  creates none, and no call id or peer connection either.
\<close>

lemma step_without_media:
  assumes "sockets st = [] \<and> connections st = [] \<and> callId st = None \<and> peerConnection st = None"
    and "\<forall>s. snd ev \<noteq> InitializeMedia (Inr s)"
  shows "sockets (modal_step ev st) = [] \<and> connections (modal_step ev st) = []
       \<and> callId (modal_step ev st) = None \<and> peerConnection (modal_step ev st) = None"
proof -
  obtain env e where ev: "ev = (env, e)" by (cases ev)
  show ?thesis
  proof (cases e)
    case (InitializeMedia media)
    with assms(2) ev obtain err where "media = Inl err"
      by (cases media) auto
    with InitializeMedia ev assms(1) show ?thesis
      by (simp add: initializeMedia_def Let_def onClose_def toast_def)
  next
    case (SocketOpen w c)
    with ev assms(1) show ?thesis by (simp add: call_onopen_def)
  next
    case (SocketMessage w sdp m)
    with ev assms(1) show ?thesis by (simp add: call_onmessage_def)
  next
    case (SocketClose w)
    with ev assms(1) show ?thesis by (simp add: call_onclose_def)
  next
    case RejectClicked
    with ev assms(1) show ?thesis
      by (simp add: handleRejectCall_def onClose_def send_on_no_socket split: option.splits)
  next
    case EndClicked
    with ev assms(1) show ?thesis
      by (simp add: handleEndCall_def endCall_def onClose_def send_on_no_socket
          cleanupMedia_no_objects split: option.splits)
  next
    case (LocalCandidate c)
    with ev assms(1) show ?thesis
      by (simp add: onicecandidate_def send_on_no_socket)
  next
    case EffectCleanup
    with ev assms(1) show ?thesis
      by (simp add: cleanupMedia_no_objects)
  qed
qed

lemma run_without_media:
  assumes "sockets st = [] \<and> connections st = [] \<and> callId st = None \<and> peerConnection st = None"
    and "\<forall>ev \<in> set evs. \<forall>s. snd ev \<noteq> InitializeMedia (Inr s)"
  shows "sockets (modal_run evs st) = [] \<and> connections (modal_run evs st) = []
       \<and> callId (modal_run evs st) = None \<and> peerConnection (modal_run evs st) = None"
  using assms unfolding modal_run_def
proof (induction evs arbitrary: st)
  case Nil
  then show ?case by simp
next
  case (Cons ev evs)
  from Cons.prems have "sockets (modal_step ev st) = [] \<and> connections (modal_step ev st) = []
       \<and> callId (modal_step ev st) = None \<and> peerConnection (modal_step ev st) = None"
    by (intro step_without_media) simp_all
  moreover from Cons.prems have "\<forall>ev \<in> set evs. \<forall>s. snd ev \<noteq> InitializeMedia (Inr s)"
    by simp
  ultimately show ?case
    using Cons.IH by simp
qed

lemma initializeMedia_failure:
  "sockets (initializeMedia (Inl err) st) = sockets st"
  "connections (initializeMedia (Inl err) st) = connections st"
  "callId (initializeMedia (Inl err) st) = callId st"
  "peerConnection (initializeMedia (Inl err) st) = peerConnection st"
  "websocket (initializeMedia (Inl err) st) = websocket st"
  "localStream (initializeMedia (Inl err) st) = localStream st"
  "isOpen (initializeMedia (Inl err) st) = False"
  "toasts (initializeMedia (Inl err) st) = toasts st @ [''Camera access failed'']"
  by (simp_all add: initializeMedia_def Let_def onClose_def toast_def)

lemma create_call_after_media:
  "all_sent (call_onopen env (length (sockets st)) c (initializeMedia (Inr s) st))
     = all_sent st @ [create_video_call c (r_otherUser env) (r_user env)]"
  by (simp add: all_sent_def call_onopen_def initializeMedia_def initializeWebRTC_def
      send_on_def Let_def)

text \<open>
  Claim C5. When \<open>getUserMedia\<close> fails, \<open>initializeMedia\<close> sends nothing, makes no
  socket, peer connection or call id, leaves the local stream as it was, and closes the
  modal. In every run of a freshly mounted modal in which no media acquisition has
  succeeded, nothing at all has been sent and there is no socket, call id or peer
  connection, whatever socket events and clicks the run contains. When \<open>getUserMedia\<close>
  succeeds, the open of the socket made for it sends \<open>create_video_call\<close>, and the local
  stream is then the one obtained.
\<close>

theorem media_failure_aborts:
  "all_sent (initializeMedia (Inl err) st) = all_sent st
   \<and> sockets (initializeMedia (Inl err) st) = sockets st
   \<and> callId (initializeMedia (Inl err) st) = callId st
   \<and> peerConnection (initializeMedia (Inl err) st) = peerConnection st
   \<and> connections (initializeMedia (Inl err) st) = connections st
   \<and> localStream (initializeMedia (Inl err) st) = localStream st
   \<and> \<not> isOpen (initializeMedia (Inl err) st)
   \<and> ((\<forall>ev \<in> set evs. \<forall>s. snd ev \<noteq> InitializeMedia (Inr s)) \<longrightarrow>
         all_sent (modal_run evs initial_modal) = []
         \<and> sockets (modal_run evs initial_modal) = []
         \<and> callId (modal_run evs initial_modal) = None
         \<and> peerConnection (modal_run evs initial_modal) = None)
   \<and> all_sent (call_onopen env (length (sockets st)) c (initializeMedia (Inr s) st))
       = all_sent st @ [create_video_call c (r_otherUser env) (r_user env)]
   \<and> localStream (call_onopen env (length (sockets st)) c (initializeMedia (Inr s) st))
       = Some s"
proof -
  have run: "all_sent (modal_run evs initial_modal) = []
         \<and> sockets (modal_run evs initial_modal) = []
         \<and> callId (modal_run evs initial_modal) = None
         \<and> peerConnection (modal_run evs initial_modal) = None"
    if "\<forall>ev \<in> set evs. \<forall>s. snd ev \<noteq> InitializeMedia (Inr s)"
  proof -
    have "sockets initial_modal = [] \<and> connections initial_modal = []
        \<and> callId initial_modal = None \<and> peerConnection initial_modal = None"
      by (simp add: initial_modal_def)
    from run_without_media [OF this that] show ?thesis
      by (simp add: all_sent_def)
  qed
  have stream:
    "localStream (call_onopen env (length (sockets st)) c (initializeMedia (Inr s) st)) = Some s"
    by (simp add: call_onopen_def initializeMedia_def initializeWebRTC_def
      send_on_def Let_def)
  show ?thesis
    using run stream
    by (simp add: initializeMedia_failure all_sent_def
        create_call_after_media [unfolded all_sent_def])
qed

text \<open>
  The camera is refused: the run sends nothing and has no call id. The same callee
  with the camera granted sends \<open>create_video_call\<close> when the socket opens.
\<close>

theorem media_failure_aborts_witness:
  "map snd camera_denied =
     [InitializeMedia (Inl (MediaError ''NotAllowedError'')), SocketOpen 0 ''call_1'',
      SocketMessage 0 ''sdp'' call_accepted, EndClicked]
   \<and> all_sent (modal_run camera_denied initial_modal) = []
   \<and> callId (modal_run camera_denied initial_modal) = None
   \<and> all_sent (call_onopen callee_render 0 ''call_1'' (initializeMedia (Inr 7) initial_modal))
       = [create_video_call ''call_1'' (Some 1) (Some 2)]"
proof -
  have h: "\<forall>ev \<in> set camera_denied. \<forall>s. snd ev \<noteq> InitializeMedia (Inr s)"
    by (simp add: camera_denied_def)
  have "length (sockets initial_modal) = 0" and "all_sent initial_modal = []"
    and "r_otherUser callee_render = Some 1" and "r_user callee_render = Some 2"
    by (simp_all add: initial_modal_def all_sent_def callee_render_def render_of_def)
  moreover have "map snd camera_denied =
     [InitializeMedia (Inl (MediaError ''NotAllowedError'')), SocketOpen 0 ''call_1'',
      SocketMessage 0 ''sdp'' call_accepted, EndClicked]"
    by (simp add: camera_denied_def)
  ultimately show ?thesis
    using h media_failure_aborts [of "MediaError ''NotAllowedError''" initial_modal
        camera_denied callee_render "''call_1''" 7]
    by simp
qed

subsection \<open>Remote candidates\<close>

lemma ice_candidate_dropped:
  assumes "r_peerConnection env = None
           \<or> (\<exists>i. r_peerConnection env = Some i
                  \<and> (i < length (connections st) \<longrightarrow>
                        pc_remoteDescription (connections st ! i) = None))"
  shows "call_onmessage env w sdp (ice_candidate c) st = st"
  using assms by (auto simp: call_onmessage_def addIceCandidate_def)

lemma ice_candidate_applied:
  assumes "w < length (sockets st)" and "r_peerConnection env = Some i"
    and "i < length (connections st)"
    and "pc_remoteDescription (connections st ! i) \<noteq> None"
    and "\<not> pc_closed (connections st ! i)"
  shows "pc_candidates (connections (call_onmessage env w sdp (ice_candidate c) st) ! i)
           = pc_candidates (connections st ! i) @ [c]"
  using assms by (simp add: call_onmessage_def addIceCandidate_def)

lemma answer_replays_nothing:
  "map pc_candidates (connections (call_onmessage env w sdp (answer a) st))
     = map pc_candidates (connections st)"
  by (auto simp: call_onmessage_def setRemoteDescription_def nth_list_update
      split: option.splits intro!: nth_equalityI)

lemma offer_makes_connection:
  assumes "w < length (sockets st)" and "r_callType env = incoming"
  shows "remote_description (call_onmessage env w sdp (offer d) st) = Some d"
    and "applied_candidates (call_onmessage env w sdp (offer d) st) = []"
    and "peerConnection (call_onmessage env w sdp (offer d) st) = Some (length (connections st))"
    and "connections (call_onmessage env w sdp (offer d) st) =
          connections st @ [\<lparr>pc_tracks = Some (ws_localStream (sockets st ! w)),
             pc_localDescription = Some sdp, pc_remoteDescription = Some d,
             pc_candidates = [], pc_closed = False\<rparr>]"
  using assms
  by (simp_all add: call_onmessage_def handleIncomingCall_def Let_def send_on_keeps
      remote_description_def applied_candidates_def)

text \<open>
  Claim C1, as the code has it. The modal has no queue of pending candidates. An
  \<open>ice_candidate\<close> envelope that arrives while the handler holds no peer connection, or
  holds one that has no remote description yet, leaves the state exactly as it was: the
  candidate is discarded. One that arrives while the handler's connection has a remote
  description (and is not closed) is added to that connection's candidates at once, after
  those added before. Applying a remote description brings back no earlier candidate: an
  \<open>answer\<close> leaves the candidates of every connection as they were, and an \<open>offer\<close> handled
  on the callee's side sets the remote description on a new connection that has no
  candidates.
\<close>

theorem ice_candidate_not_queued:
  "((r_peerConnection env = None
      \<or> (\<exists>i. r_peerConnection env = Some i
             \<and> (i < length (connections st) \<longrightarrow>
                   pc_remoteDescription (connections st ! i) = None)))
     \<longrightarrow> call_onmessage env w sdp (ice_candidate c) st = st)
   \<and> (\<forall>i. w < length (sockets st) \<and> r_peerConnection env = Some i
          \<and> i < length (connections st)
          \<and> pc_remoteDescription (connections st ! i) \<noteq> None
          \<and> \<not> pc_closed (connections st ! i)
        \<longrightarrow> pc_candidates (connections (call_onmessage env w sdp (ice_candidate c) st) ! i)
              = pc_candidates (connections st ! i) @ [c])
   \<and> map pc_candidates (connections (call_onmessage env w sdp (answer a) st))
       = map pc_candidates (connections st)
   \<and> (w < length (sockets st) \<and> r_callType env = incoming
        \<longrightarrow> remote_description (call_onmessage env w sdp (offer d) st) = Some d
          \<and> applied_candidates (call_onmessage env w sdp (offer d) st) = [])"
  using ice_candidate_dropped [of env st w sdp c]
    ice_candidate_applied [where w = w and st = st and env = env and sdp = sdp and c = c]
    answer_replays_nothing [of env w sdp a st] offer_makes_connection(1,2) [of w st env sdp d]
  by blast

text \<open>
  In the call of \<open>in_call\<close>: a candidate handled by the closure made before the
  connection existed is discarded; one handled by a closure that holds the connection is
  added; an offer gives a connection without candidates.
\<close>

theorem ice_candidate_not_queued_witness:
  "r_peerConnection callee_render = None
   \<and> call_onmessage callee_render 0 ''sdp'' (ice_candidate ''candidate-2'') in_call = in_call
   \<and> (0 < length (sockets in_call) \<and> r_peerConnection live_render = Some 0
        \<and> 0 < length (connections in_call)
        \<and> pc_remoteDescription (connections in_call ! 0) \<noteq> None
        \<and> \<not> pc_closed (connections in_call ! 0))
   \<and> pc_candidates
         (connections (call_onmessage live_render 0 ''sdp'' (ice_candidate ''candidate-2'') in_call)
            ! 0) = [''candidate-2'']
   \<and> r_callType live_render = incoming
   \<and> remote_description (call_onmessage live_render 0 ''sdp'' (offer ''offer-2'') in_call)
       = Some ''offer-2''
   \<and> applied_candidates (call_onmessage live_render 0 ''sdp'' (offer ''offer-2'') in_call) = []"
proof -
  have none: "r_peerConnection callee_render = None"
    by code_simp
  have held: "0 < length (sockets in_call) \<and> r_peerConnection live_render = Some 0
        \<and> 0 < length (connections in_call)
        \<and> pc_remoteDescription (connections in_call ! 0) \<noteq> None
        \<and> \<not> pc_closed (connections in_call ! 0)"
    by code_simp
  have empty: "pc_candidates (connections in_call ! 0) = []"
    by code_simp
  have callee: "r_callType live_render = incoming"
    by code_simp
  from none
    ice_candidate_not_queued [where env = callee_render and st = in_call and w = 0
      and sdp = "''sdp''" and c = "''candidate-2''"]
  have dropped:
    "call_onmessage callee_render 0 ''sdp'' (ice_candidate ''candidate-2'') in_call = in_call"
    by blast
  from held callee
    ice_candidate_not_queued [where env = live_render and st = in_call and w = 0
      and sdp = "''sdp''" and c = "''candidate-2''" and d = "''offer-2''"]
  have "pc_candidates
         (connections (call_onmessage live_render 0 ''sdp'' (ice_candidate ''candidate-2'') in_call)
            ! 0) = pc_candidates (connections in_call ! 0) @ [''candidate-2'']"
    and "remote_description (call_onmessage live_render 0 ''sdp'' (offer ''offer-2'') in_call)
       = Some ''offer-2''"
    and "applied_candidates (call_onmessage live_render 0 ''sdp'' (offer ''offer-2'') in_call) = []"
    by blast+
  with none held callee dropped empty show ?thesis
    by simp
qed

text \<open>
  Claim C1, as stated, fails in the run \<open>ice_before_offer\<close>: the candidate arrives before
  the offer, its handling leaves the state as it was, and once the offer is applied as
  remote description the connection has no candidate, although one was received.
\<close>

theorem ice_candidate_lost:
  "remote_description (modal_run ice_before_offer initial_modal) = Some ''offer-sdp''
   \<and> received_candidates ice_before_offer = [''candidate-1'']
   \<and> applied_candidates (modal_run ice_before_offer initial_modal) = []
   \<and> modal_run (take 3 ice_before_offer) initial_modal
       = modal_run (take 2 ice_before_offer) initial_modal"
  by code_simp

subsection \<open>A second call\<close>

lemma offer_sends_at_most_answer:
  "set (all_sent (call_onmessage env w sdp (offer d) st))
     \<subseteq> insert (answer_to (r_callId env) sdp (r_otherUser env)) (set (all_sent st))"
proof -
  have same: "all_sent (st\<lparr>connections := cs, peerConnection := p\<rparr>) = all_sent st" for cs p
    by (simp add: all_sent_def)
  show ?thesis
  proof (cases "w < length (sockets st) \<and> r_callType env = incoming")
    case True
    then show ?thesis
      using set_all_sent_send_on [of "r_websocket env"
          "answer_to (r_callId env) sdp (r_otherUser env)"
          "st\<lparr>connections := connections st @
               [\<lparr>pc_tracks = Some (ws_localStream (sockets st ! w)),
                 pc_localDescription = Some sdp, pc_remoteDescription = Some d,
                 pc_candidates = [], pc_closed = False\<rparr>],
             peerConnection := Some (length (connections st))\<rparr>"]
      by (simp add: call_onmessage_def handleIncomingCall_def Let_def same)
  next
    case False
    then have "call_onmessage env w sdp (offer d) st = st"
      by (auto simp: call_onmessage_def)
    then show ?thesis by auto
  qed
qed

lemma onopen_replaces_callId:
  assumes "w < length (sockets st)"
  shows "callId (call_onopen env w c st) = Some c"
    and "websocket (call_onopen env w c st) = Some w"
    and "create_video_call c (r_otherUser env) (r_user env)
           \<in> set (ws_sent (sockets (call_onopen env w c st) ! w))"
  using assms by (simp_all add: call_onopen_def send_on_keeps send_on_def)

text \<open>
  Claim C2, as the code has it. The modal has no test for a call in progress. An
  \<open>offer\<close> handled under call type \<open>incoming\<close> always makes a new peer connection with that
  offer as remote description and puts it in the place of the state's \<open>peerConnection\<close>,
  whether or not there was one; under any other call type the offer is ignored and the
  state stays as it was. Handling an offer sends nothing except, at most, the answer:
  no rejection goes out. Every open of a signaling socket stores its new call id in the
  place of the old one and sends \<open>create_video_call\<close> with it.
\<close>

theorem no_exclusivity_guard:
  "(w < length (sockets st) \<and> r_callType env = incoming \<longrightarrow>
      peerConnection (call_onmessage env w sdp (offer d) st) = Some (length (connections st))
      \<and> connections (call_onmessage env w sdp (offer d) st) =
          connections st @ [\<lparr>pc_tracks = Some (ws_localStream (sockets st ! w)),
             pc_localDescription = Some sdp, pc_remoteDescription = Some d,
             pc_candidates = [], pc_closed = False\<rparr>])
   \<and> (r_callType env \<noteq> incoming \<longrightarrow> call_onmessage env w sdp (offer d) st = st)
   \<and> set (all_sent (call_onmessage env w sdp (offer d) st))
       \<subseteq> insert (answer_to (r_callId env) sdp (r_otherUser env)) (set (all_sent st))
   \<and> (w < length (sockets st) \<longrightarrow>
        callId (call_onopen env w c st) = Some c
        \<and> create_video_call c (r_otherUser env) (r_user env)
            \<in> set (ws_sent (sockets (call_onopen env w c st) ! w)))"
proof -
  have "call_onmessage env w sdp (offer d) st = st" if "r_callType env \<noteq> incoming"
    using that by (simp add: call_onmessage_def)
  then show ?thesis
    using offer_makes_connection(3,4) [of w st env sdp d]
      offer_sends_at_most_answer [of env w sdp d st]
      onopen_replaces_callId(1,3) [where w = w and st = st and env = env and c = c]
    by blast
qed

text \<open>
  During the call of \<open>in_call\<close> a second offer arrives on the same socket, and the socket
  opens once more with another call id.
\<close>

theorem no_exclusivity_guard_witness:
  "0 < length (sockets in_call) \<and> r_callType callee_render = incoming
   \<and> peerConnection in_call = Some 0
   \<and> peerConnection (call_onmessage callee_render 0 ''answer-2'' (offer ''offer-2'') in_call)
       = Some 1
   \<and> callId in_call = Some ''call_1''
   \<and> callId (call_onopen callee_render 0 ''call_2'' in_call) = Some ''call_2''"
proof -
  have hyp: "0 < length (sockets in_call) \<and> r_callType callee_render = incoming"
    by code_simp
  have before: "peerConnection in_call = Some 0 \<and> callId in_call = Some ''call_1''
     \<and> length (connections in_call) = 1"
    by code_simp
  from hyp
    no_exclusivity_guard [where w = 0 and st = in_call and env = callee_render
      and sdp = "''answer-2''" and d = "''offer-2''" and c = "''call_2''"]
  have "peerConnection (call_onmessage callee_render 0 ''answer-2'' (offer ''offer-2'') in_call)
       = Some (length (connections in_call))"
    and "callId (call_onopen callee_render 0 ''call_2'' in_call) = Some ''call_2''"
    by blast+
  with hyp before show ?thesis
    by simp
qed

text \<open>
  Claim C2, as stated, fails during the call of \<open>in_call\<close>, whose session has peer
  connection 0 and call id \<open>call_1\<close>. A second offer is not rejected: it makes
  connection 1, which takes the place of connection 0 in the state and carries the new
  remote description, while connection 0 is left open. A second outgoing call is not
  rejected either: once its media is there and its socket opens, \<open>call_2\<close> takes the
  place of \<open>call_1\<close> and a second \<open>create_video_call\<close> has been sent.
\<close>

theorem second_call_overwrites:
  "peerConnection in_call = Some 0
   \<and> callId in_call = Some ''call_1''
   \<and> peerConnection (call_onmessage callee_render 0 ''answer-2'' (offer ''offer-2'') in_call)
       = Some 1
   \<and> remote_description (call_onmessage callee_render 0 ''answer-2'' (offer ''offer-2'') in_call)
       = Some ''offer-2''
   \<and> map pc_closed
        (connections (call_onmessage callee_render 0 ''answer-2'' (offer ''offer-2'') in_call))
       = [False, False]
   \<and> callId (call_onopen live_render 1 ''call_2'' (initializeMedia (Inr 8) in_call))
       = Some ''call_2''
   \<and> all_sent (call_onopen live_render 1 ''call_2'' (initializeMedia (Inr 8) in_call))
       = [create_video_call ''call_1'' (Some 1) (Some 2),
          create_video_call ''call_2'' (Some 1) (Some 2)]"
  by code_simp

end
